theory Spec2Isabelle
  imports Complex_Main "HOL-Library.Sublist"
begin

section \<open>JavaScript values\<close>

text \<open>
  A JavaScript number is an IEEE 754 double. A finite double is the real number it stands for;
  NaN and the infinities are left out. Comparisons of doubles are comparisons of these reals.
  Clock readings in whole seconds (\<^verbatim>\<open>Math.floor(Date.now() / 1000)\<close>) and the integer columns
  of the store are \<^typ>\<open>int\<close>. A property that may be \<^verbatim>\<open>undefined\<close> or \<^verbatim>\<open>null\<close> is an
  \<^typ>\<open>'a option\<close>.
\<close>

text \<open>
  The result of \<^verbatim>\<open>a - b\<close>, \<^verbatim>\<open>a / b\<close> or \<^verbatim>\<open>a * b\<close> on doubles is the exact result rounded to the
  nearest double, to the one with the even significand on a tie. \<open>binade x\<close> is the exponent
  \<open>e\<close> with \<open>2^e \<le> x < 2^(e+1)\<close>, searched over the exponents of the format; a double of that
  size is a multiple of \<open>2^(e-52)\<close>, and of \<open>2^(-1074)\<close> at the bottom of the range. A result
  beyond the largest double, which the runtime turns into an infinity, is outside the model.
\<close>

definition pow2 :: "int \<Rightarrow> real" where
  "pow2 e = (if 0 \<le> e then 2 ^ nat e else 1 / 2 ^ nat (- e))"

definition roundEven :: "real \<Rightarrow> int" where
  "roundEven x =
     (let f = \<lfloor>x\<rfloor>; r = x - of_int f
      in if r < 1 / 2 then f else if 1 / 2 < r then f + 1 else if even f then f else f + 1)"

fun halvings :: "nat \<Rightarrow> real \<Rightarrow> int" where
  "halvings 0 x = 0"
| "halvings (Suc n) x = (if x < 2 then 0 else 1 + halvings n (x / 2))"

fun doublings :: "nat \<Rightarrow> real \<Rightarrow> int" where
  "doublings 0 x = 0"
| "doublings (Suc n) x = (if 1 \<le> x then 0 else doublings n (x * 2) - 1)"

definition binade :: "real \<Rightarrow> int" where
  "binade x = (if 1 \<le> x then halvings 1024 x else doublings 1074 x)"

definition roundDouble :: "real \<Rightarrow> real" where
  "roundDouble x =
     (let a = \<bar>x\<bar>;
          u = pow2 (max (binade a - 52) (- 1074))
      in sgn x * of_int (roundEven (a / u)) * u)"

definition dsub :: "real \<Rightarrow> real \<Rightarrow> real" where
  "dsub a b = roundDouble (a - b)"

definition ddiv :: "real \<Rightarrow> real \<Rightarrow> real" where
  "ddiv a b = roundDouble (a / b)"

definition dmul :: "real \<Rightarrow> real \<Rightarrow> real" where
  "dmul a b = roundDouble (a * b)"

text \<open>
  \<^verbatim>\<open>x || d\<close> on an optional number: \<^verbatim>\<open>undefined\<close>, \<^verbatim>\<open>null\<close> and \<^verbatim>\<open>0\<close> are falsy.
\<close>

fun js_or :: "'a::zero option \<Rightarrow> 'a \<Rightarrow> 'a" where
  "js_or None d = d"
| "js_or (Some v) d = (if v \<noteq> 0 then v else d)"

text \<open>\<^verbatim>\<open>x ?? d\<close>.\<close>

fun js_nullish :: "'a option \<Rightarrow> 'a \<Rightarrow> 'a" where
  "js_nullish None d = d"
| "js_nullish (Some v) d = v"

text \<open>Decimal digits of a natural number.\<close>

definition digit :: "nat \<Rightarrow> char" where
  "digit d = ''0123456789'' ! d"

function natStr :: "nat \<Rightarrow> string" where
  "natStr n = (if n < 10 then [digit n] else natStr (n div 10) @ [digit (n mod 10)])"
  by pat_completeness auto
termination
  by (relation "measure (\<lambda>n. n)") auto

declare natStr.simps [simp del]

text \<open>
  The conversion of a number to a string by a template literal (\<^verbatim>\<open>`${price}`\<close>) is the
  runtime's \<^verbatim>\<open>Number::toString\<close>, the shortest decimal that reads back as the same double. The
  evaluator takes it as the parameter \<open>str\<close>. On an integer of magnitude below \<open>10^21\<close> the
  runtime prints the plain decimal digits, which is \<open>decimalStr\<close>; it stands in for \<open>str\<close>
  at the integer inputs of the scenarios.
\<close>

definition decimalStr :: "real \<Rightarrow> string" where
  "decimalStr x = (if x < 0 then ''-'' else '''') @ natStr (nat \<lfloor>abs x\<rfloor>)"

text \<open>
  \<^verbatim>\<open>Number.prototype.toFixed(f)\<close> after ECMAScript, which works on the exact value of the
  double: the sign is split off, \<open>n\<close> is the integer nearest to \<open>x * 10^f\<close> (the larger one on
  a tie), and the digits of \<open>n\<close> are padded with
  zeros to \<open>f + 1\<close> places before the point is inserted. From \<open>10^21\<close> on the result is the
  plain conversion.
\<close>

definition toFixed :: "(real \<Rightarrow> string) \<Rightarrow> nat \<Rightarrow> real \<Rightarrow> string" where
  "toFixed str f x =
     (if \<bar>x\<bar> \<ge> 10 ^ 21 then str x
      else
        let s = (if x < 0 then ''-'' else '''');
            x = \<bar>x\<bar>;
            n = nat \<lfloor>x * 10 ^ f + 1 / 2\<rfloor>;
            m = natStr n;
            m = (if f \<noteq> 0
                 then (let k = length m;
                           m = (if k \<le> f then replicate (f + 1 - k) (CHR ''0'') @ m else m);
                           k = length m
                       in take (k - f) m @ ''.'' @ drop (k - f) m)
                 else m)
        in s @ m)"

section \<open>Data model\<close>

text \<open>
  The evaluator state \<^verbatim>\<open>Record<string, any>\<close>, restricted to the four properties that the
  evaluator reads and writes.
\<close>

record lastState =
  wasAbove :: "bool option"
  wasBelow :: "bool option"
  basePrice :: "real option"
  windowSec :: "real option"

definition emptyState :: lastState where
  "emptyState = \<lparr>wasAbove = None, wasBelow = None, basePrice = None, windowSec = None\<rparr>"

text \<open>\<^verbatim>\<open>interface Alert\<close> of the store.\<close>

record alert =
  id' :: string
  symbol :: string
  condition_type :: string
  threshold :: real
  poll_interval_sec :: int
  cooldown_sec :: int
  is_enabled :: bool
  last_triggered_at :: "int option"
  last_state :: "lastState option"
  created_at :: int
  updated_at :: int

text \<open>\<^verbatim>\<open>interface AlertWithState extends Alert\<close>.\<close>

record alertWithState = alert +
  lastState' :: lastState

text \<open>\<^verbatim>\<open>{ ...alert, _lastState: alert.last_state || {} }\<close>\<close>

definition withState :: "alert \<Rightarrow> alertWithState" where
  "withState a =
     alert.extend a (alertWithState.fields (case last_state a of None \<Rightarrow> emptyState | Some s \<Rightarrow> s))"

record triggerResult =
  triggered :: bool
  reason :: string

section \<open>Condition evaluator\<close>

text \<open>
  \<^verbatim>\<open>shouldTrigger\<close> of the TypeScript engine. The source mutates \<^verbatim>\<open>alert._lastState\<close> in place;
  the model returns the alert with its state next to the result. A \<^verbatim>\<open>return\<close> inside a case
  leaves the state as it was, a \<^verbatim>\<open>break\<close> reaches the final \<^verbatim>\<open>no condition met\<close>.
\<close>

definition noConditionMet :: triggerResult where
  "noConditionMet = \<lparr>triggered = False, reason = ''no condition met''\<rparr>"

definition shouldTrigger ::
  "(real \<Rightarrow> string) \<Rightarrow> alertWithState \<Rightarrow> int \<Rightarrow> real \<Rightarrow> triggerResult \<times> alertWithState" where
  "shouldTrigger str alert now price =
     (if (case last_triggered_at alert of
            None \<Rightarrow> False
          | Some t \<Rightarrow> t \<noteq> 0 \<and> now - t < cooldown_sec alert)
      then (\<lparr>triggered = False, reason = ''cooldown''\<rparr>, alert)
      else
        let state = lastState' alert;
            threshold = threshold alert
        in
        if condition_type alert = ''cross_up'' then
          (let wasAbove' = js_nullish (wasAbove state) (price \<ge> threshold);
               isAbove = (price \<ge> threshold)
           in if \<not> wasAbove' \<and> isAbove
              then (\<lparr>triggered = True,
                     reason = ''cross_up: ''
                       @ (if wasAbove state = Some True then ''false'' else ''undefined'')
                       @ '' -> true''\<rparr>, alert)
              else (noConditionMet, alert\<lparr>lastState' := state\<lparr>wasAbove := Some isAbove\<rparr>\<rparr>))
        else if condition_type alert = ''cross_down'' then
          (let wasBelow' = js_nullish (wasBelow state) (price \<le> threshold);
               isBelow = (price \<le> threshold)
           in if \<not> wasBelow' \<and> isBelow
              then (\<lparr>triggered = True,
                     reason = ''cross_down: ''
                       @ (if wasBelow state = Some True then ''false'' else ''undefined'')
                       @ '' -> true''\<rparr>, alert)
              else (noConditionMet, alert\<lparr>lastState' := state\<lparr>wasBelow := Some isBelow\<rparr>\<rparr>))
        else if condition_type alert = ''price_gte'' then
          (if price \<ge> threshold
           then (\<lparr>triggered = True,
                  reason = ''price_gte: '' @ str price @ '' >= '' @ str threshold\<rparr>, alert)
           else (noConditionMet, alert))
        else if condition_type alert = ''price_lte'' then
          (if price \<le> threshold
           then (\<lparr>triggered = True,
                  reason = ''price_lte: '' @ str price @ '' <= '' @ str threshold\<rparr>, alert)
           else (noConditionMet, alert))
        else if condition_type alert = ''pct_change_up'' then
          (let windowSec' = js_or (windowSec state) 0;
               fired =
                 (case basePrice state of
                    None \<Rightarrow> None
                  | Some base \<Rightarrow>
                      if windowSec' > 0 \<and> base \<noteq> 0
                      then (let change = dmul (ddiv (dsub price base) base) 100
                            in if change \<ge> threshold then Some change else None)
                      else None)
           in case fired of
                Some change \<Rightarrow>
                  (\<lparr>triggered = True,
                    reason = ''pct_change_up: '' @ toFixed str 2 change @ ''% >= ''
                      @ str threshold @ ''%''\<rparr>, alert)
              | None \<Rightarrow>
                  (noConditionMet,
                   alert\<lparr>lastState' := state\<lparr>basePrice := Some price,
                                               windowSec := Some (js_or (Some windowSec') 60)\<rparr>\<rparr>))
        else if condition_type alert = ''pct_change_down'' then
          (let windowSec' = js_or (windowSec state) 0;
               fired =
                 (case basePrice state of
                    None \<Rightarrow> None
                  | Some base \<Rightarrow>
                      if windowSec' > 0 \<and> base \<noteq> 0
                      then (let change = dmul (ddiv (dsub price base) base) 100
                            in if change \<le> - threshold then Some change else None)
                      else None)
           in case fired of
                Some change \<Rightarrow>
                  (\<lparr>triggered = True,
                    reason = ''pct_change_down: '' @ toFixed str 2 change @ ''% <= -''
                      @ str threshold @ ''%''\<rparr>, alert)
              | None \<Rightarrow>
                  (noConditionMet,
                   alert\<lparr>lastState' := state\<lparr>basePrice := Some price,
                                               windowSec := Some (js_or (Some windowSec') 60)\<rparr>\<rparr>))
        else (noConditionMet, alert))"


text \<open>
  \<^verbatim>\<open>shouldTrigger\<close> of \<^verbatim>\<open>lib/monitor-engine.cjs\<close>, the CommonJS engine. It differs from the
  TypeScript one in two places: the reason of a cross prints the flag that was read
  (\<^verbatim>\<open>`cross_up: ${wasAbove} -> true`\<close>), and the percent-change cases keep no window.
\<close>

definition shouldTrigger_cjs ::
  "(real \<Rightarrow> string) \<Rightarrow> alertWithState \<Rightarrow> int \<Rightarrow> real \<Rightarrow> triggerResult \<times> alertWithState" where
  "shouldTrigger_cjs str alert now price =
     (if (case last_triggered_at alert of
            None \<Rightarrow> False
          | Some t \<Rightarrow> t \<noteq> 0 \<and> now - t < cooldown_sec alert)
      then (\<lparr>triggered = False, reason = ''cooldown''\<rparr>, alert)
      else
        let state = lastState' alert;
            threshold = threshold alert
        in
        if condition_type alert = ''cross_up'' then
          (let wasAbove' = js_nullish (wasAbove state) (price \<ge> threshold);
               isAbove = (price \<ge> threshold)
           in if \<not> wasAbove' \<and> isAbove
              then (\<lparr>triggered = True,
                     reason = ''cross_up: ''
                       @ (if wasAbove' then ''true'' else ''false'')
                       @ '' -> true''\<rparr>, alert)
              else (noConditionMet, alert\<lparr>lastState' := state\<lparr>wasAbove := Some isAbove\<rparr>\<rparr>))
        else if condition_type alert = ''cross_down'' then
          (let wasBelow' = js_nullish (wasBelow state) (price \<le> threshold);
               isBelow = (price \<le> threshold)
           in if \<not> wasBelow' \<and> isBelow
              then (\<lparr>triggered = True,
                     reason = ''cross_down: ''
                       @ (if wasBelow' then ''true'' else ''false'')
                       @ '' -> true''\<rparr>, alert)
              else (noConditionMet, alert\<lparr>lastState' := state\<lparr>wasBelow := Some isBelow\<rparr>\<rparr>))
        else if condition_type alert = ''price_gte'' then
          (if price \<ge> threshold
           then (\<lparr>triggered = True,
                  reason = ''price_gte: '' @ str price @ '' >= '' @ str threshold\<rparr>, alert)
           else (noConditionMet, alert))
        else if condition_type alert = ''price_lte'' then
          (if price \<le> threshold
           then (\<lparr>triggered = True,
                  reason = ''price_lte: '' @ str price @ '' <= '' @ str threshold\<rparr>, alert)
           else (noConditionMet, alert))
        else if condition_type alert = ''pct_change_up'' then
          (let fired =
                 (case basePrice state of
                    None \<Rightarrow> None
                  | Some base \<Rightarrow>
                      if base \<noteq> 0
                      then (let change = dmul (ddiv (dsub price base) base) 100
                            in if change \<ge> threshold then Some change else None)
                      else None)
           in case fired of
                Some change \<Rightarrow>
                  (\<lparr>triggered = True,
                    reason = ''pct_change_up: '' @ toFixed str 2 change @ ''% >= ''
                      @ str threshold @ ''%''\<rparr>, alert)
              | None \<Rightarrow>
                  (noConditionMet,
                   alert\<lparr>lastState' := state\<lparr>basePrice := Some price\<rparr>\<rparr>))
        else if condition_type alert = ''pct_change_down'' then
          (let fired =
                 (case basePrice state of
                    None \<Rightarrow> None
                  | Some base \<Rightarrow>
                      if base \<noteq> 0
                      then (let change = dmul (ddiv (dsub price base) base) 100
                            in if change \<le> - threshold then Some change else None)
                      else None)
           in case fired of
                Some change \<Rightarrow>
                  (\<lparr>triggered = True,
                    reason = ''pct_change_down: '' @ toFixed str 2 change @ ''% <= -''
                      @ str threshold @ ''%''\<rparr>, alert)
              | None \<Rightarrow>
                  (noConditionMet,
                   alert\<lparr>lastState' := state\<lparr>basePrice := Some price\<rparr>\<rparr>))
        else (noConditionMet, alert))"


section \<open>Rule store\<close>

text \<open>
  The SQLite store of the TypeScript engine: the rows of \<^verbatim>\<open>alerts\<close>, the rows of
  \<^verbatim>\<open>alert_events\<close> under their \<^verbatim>\<open>INTEGER PRIMARY KEY AUTOINCREMENT\<close>, and the last row id
  handed out.
\<close>

record alertEvent =
  alert_id :: string
  event_type :: string
  reason :: "string option"
  price :: "real option"
  threshold :: "real option"
  notify_status :: string
  error_message :: "string option"
  triggered_at :: int

record db =
  alerts :: "alert list"
  alert_events :: "nat \<rightharpoonup> alertEvent"
  lastInsertRowid :: nat

text \<open>\<^verbatim>\<open>SELECT * FROM alerts WHERE is_enabled = 1\<close>\<close>

definition getEnabledAlerts :: "db \<Rightarrow> alert list" where
  "getEnabledAlerts d = filter is_enabled (alerts d)"

text \<open>
  \<^verbatim>\<open>Partial<Alert>\<close> as the engine passes it: \<^verbatim>\<open>last_triggered_at\<close> and \<^verbatim>\<open>last_state\<close>, each
  present or absent.
\<close>

record alertUpdates =
  upd_last_triggered_at :: "int option"
  upd_last_state :: "lastState option"

text \<open>
  \<^verbatim>\<open>updateAlert(id, updates)\<close>: every row with that id takes the fields present in \<open>updates\<close>
  and the store's clock reading \<open>now\<close> as \<^verbatim>\<open>updated_at\<close>; with no field present nothing is
  written.
\<close>

definition updateAlert :: "string \<Rightarrow> alertUpdates \<Rightarrow> int \<Rightarrow> db \<Rightarrow> db" where
  "updateAlert i updates now d =
     (if upd_last_triggered_at updates = None \<and> upd_last_state updates = None then d
      else d\<lparr>alerts :=
        map (\<lambda>row.
               if id' row = i
               then row\<lparr>last_triggered_at :=
                          (case upd_last_triggered_at updates of
                             None \<Rightarrow> last_triggered_at row | Some t \<Rightarrow> Some t),
                        last_state :=
                          (case upd_last_state updates of
                             None \<Rightarrow> last_state row | Some st \<Rightarrow> Some st),
                        updated_at := now\<rparr>
               else row)
            (alerts d)\<rparr>)"

text \<open>\<^verbatim>\<open>createAlertEvent(event)\<close> inserts the row and returns \<^verbatim>\<open>lastInsertRowid\<close>.\<close>

definition createAlertEvent :: "alertEvent \<Rightarrow> db \<Rightarrow> nat \<times> db" where
  "createAlertEvent event d =
     (let rowid = lastInsertRowid d + 1
      in (rowid, d\<lparr>alert_events := (alert_events d)(rowid \<mapsto> event), lastInsertRowid := rowid\<rparr>))"

text \<open>
  \<^verbatim>\<open>UPDATE alert_events SET notify_status = ?, error_message = ? WHERE id = ?\<close> with
  \<^verbatim>\<open>errorMessage ?? null\<close>: a missing row is left missing.
\<close>

definition updateAlertEventStatus :: "nat \<Rightarrow> string \<Rightarrow> string option \<Rightarrow> db \<Rightarrow> db" where
  "updateAlertEventStatus i status errorMessage d =
     (case alert_events d i of
        None \<Rightarrow> d
      | Some ev \<Rightarrow>
          d\<lparr>alert_events :=
              (alert_events d)(i \<mapsto> ev\<lparr>notify_status := status, error_message := errorMessage\<rparr>)\<rparr>)"

section \<open>Delivery queue\<close>

record notifyTask =
  eventId :: nat
  alertId :: string
  symbol :: string
  conditionType :: string
  threshold :: real
  price :: real
  reason :: string
  triggeredAt :: int

record notifyQueue =
  tasks :: "notifyTask list"
  isProcessing :: bool

definition MAX_RETRIES :: nat where
  "MAX_RETRIES = 3"

definition RETRY_DELAYS :: "int list" where
  "RETRY_DELAYS = [1000, 3000, 10000]"

definition RATE_LIMIT_DELAY :: int where
  "RATE_LIMIT_DELAY = 500"

text \<open>
  \<^verbatim>\<open>RETRY_DELAYS[attempts - 1] || RETRY_DELAYS[RETRY_DELAYS.length - 1]\<close>: an index before
  the start or past the end reads \<^verbatim>\<open>undefined\<close>, which is falsy as a zero entry would be.
\<close>

definition retryDelay :: "nat \<Rightarrow> int" where
  "retryDelay attempts =
     js_or (if 1 \<le> attempts \<and> attempts - 1 < length RETRY_DELAYS
            then Some (RETRY_DELAYS ! (attempts - 1)) else None)
           (RETRY_DELAYS ! (length RETRY_DELAYS - 1))"

text \<open>
  What one call of \<^verbatim>\<open>processTask\<close> does to the outside: it sleeps and it calls the message
  sink. \<open>clock\<close> is \<^verbatim>\<open>Date.now()\<close> in milliseconds; a timer of \<open>ms\<close> milliseconds moves it by
  \<open>ms\<close>, and a call of the sink is taken to cost no time.
\<close>

datatype effect = Sleep int | Send notifyTask

record sender =
  lastSendTime :: int
  clock :: int
  effects :: "effect list"

definition sleep :: "int \<Rightarrow> sender \<Rightarrow> sender" where
  "sleep ms w = w\<lparr>clock := clock w + ms, effects := effects w @ [Sleep ms]\<rparr>"

text \<open>
  The retry loop of \<^verbatim>\<open>processTask\<close>. The message sink is outside the program: \<open>sink n\<close> is
  what the \<open>n\<close>-th call of \<^verbatim>\<open>sendTelegramNotification\<close> for this task does, \<open>None\<close> when it
  returns and \<open>Some msg\<close> when it throws, \<open>msg\<close> being \<^verbatim>\<open>error.message || String(error)\<close>.
\<close>

function attemptLoop ::
  "(nat \<Rightarrow> string option) \<Rightarrow> notifyTask \<Rightarrow> nat \<Rightarrow> string option \<Rightarrow> sender \<times> db \<Rightarrow> sender \<times> db" where
  "attemptLoop sink task attempts lastError (w, d) =
     (if attempts < MAX_RETRIES then
        (let attempts = attempts + 1;
             w = w\<lparr>effects := effects w @ [Send task]\<rparr>
         in case sink attempts of
              None \<Rightarrow> (w, updateAlertEventStatus (eventId task) ''success'' None d)
            | Some msg \<Rightarrow>
                attemptLoop sink task attempts (Some msg)
                  (if attempts < MAX_RETRIES then sleep (retryDelay attempts) w else w, d))
      else (w, updateAlertEventStatus (eventId task) ''failed'' lastError d))"
  by pat_completeness auto
termination
  by (relation "measure (\<lambda>(sink, task, attempts, lastError, s). MAX_RETRIES - attempts)") auto

declare attemptLoop.simps [simp del]

definition processTask ::
  "(nat \<Rightarrow> string option) \<Rightarrow> notifyTask \<Rightarrow> sender \<times> db \<Rightarrow> sender \<times> db" where
  "processTask sink task s =
     (let w = fst s;
          now = clock w;
          timeSinceLastSend = now - lastSendTime w;
          w = (if timeSinceLastSend < RATE_LIMIT_DELAY
               then sleep (RATE_LIMIT_DELAY - timeSinceLastSend) w else w);
          w = w\<lparr>lastSendTime := clock w\<rparr>
      in attemptLoop sink task 0 None (w, snd s))"

text \<open>
  What a call of \<^verbatim>\<open>processTask\<close> that started from the sender \<open>w\<close> and ended in \<open>r\<close> added to
  the effects, the pause it starts with for the rate limit, and the number of calls of the
  sink among some effects.
\<close>

definition performed :: "sender \<Rightarrow> sender \<times> db \<Rightarrow> effect list" where
  "performed w r = drop (length (effects w)) (effects (fst r))"

definition rateLimitPause :: "sender \<Rightarrow> effect list" where
  "rateLimitPause w =
     (if clock w - lastSendTime w < RATE_LIMIT_DELAY
      then [Sleep (RATE_LIMIT_DELAY - (clock w - lastSendTime w))] else [])"

fun sendCount :: "effect list \<Rightarrow> nat" where
  "sendCount [] = 0"
| "sendCount (Send task # es) = Suc (sendCount es)"
| "sendCount (Sleep ms # es) = sendCount es"

text \<open>
  The queue and its consumers. \<^verbatim>\<open>processQueue\<close> is an \<^verbatim>\<open>async\<close> function: a call runs up to
  its first \<^verbatim>\<open>await processTask(task)\<close> and is suspended there until that task is done; other
  code, \<^verbatim>\<open>pushToNotifyQueue\<close> included, runs in between. \<open>draining\<close> holds one entry for every
  call of \<^verbatim>\<open>processQueue\<close> that is suspended in its loop, namely the task it awaits. \<open>pushed\<close>
  and \<open>started\<close> are history: the tasks in the order they were enqueued, and in the order
  they were handed to \<^verbatim>\<open>processTask\<close>.
\<close>

record delivery =
  notifyQueue :: notifyQueue
  draining :: "notifyTask list"
  pushed :: "notifyTask list"
  started :: "notifyTask list"

text \<open>
  The loop of \<^verbatim>\<open>processQueue\<close> from its test to the next suspension: with a task waiting it is
  shifted off the queue and handed to \<^verbatim>\<open>processTask\<close>; with none the loop ends and
  \<^verbatim>\<open>isProcessing\<close> is reset.
\<close>

definition drainLoop :: "delivery \<Rightarrow> delivery" where
  "drainLoop q =
     (case tasks (notifyQueue q) of
        [] \<Rightarrow> q\<lparr>notifyQueue := (notifyQueue q)\<lparr>isProcessing := False\<rparr>\<rparr>
      | task # rest \<Rightarrow>
          q\<lparr>notifyQueue := (notifyQueue q)\<lparr>tasks := rest\<rparr>,
            draining := draining q @ [task],
            started := started q @ [task]\<rparr>)"

definition processQueue :: "delivery \<Rightarrow> delivery" where
  "processQueue q =
     (if isProcessing (notifyQueue q) \<or> length (tasks (notifyQueue q)) = 0 then q
      else drainLoop (q\<lparr>notifyQueue := (notifyQueue q)\<lparr>isProcessing := True\<rparr>\<rparr>))"

definition pushToNotifyQueue :: "notifyTask \<Rightarrow> delivery \<Rightarrow> delivery" where
  "pushToNotifyQueue task q =
     processQueue (q\<lparr>notifyQueue := (notifyQueue q)\<lparr>tasks := tasks (notifyQueue q) @ [task]\<rparr>,
                      pushed := pushed q @ [task]\<rparr>)"

text \<open>
  The \<open>i\<close>-th suspended call resumes: the task it awaited is done, and its loop goes on.
\<close>

definition taskDone :: "nat \<Rightarrow> delivery \<Rightarrow> delivery" where
  "taskDone i q = drainLoop (q\<lparr>draining := take i (draining q) @ drop (Suc i) (draining q)\<rparr>)"

definition idle :: delivery where
  "idle = \<lparr>notifyQueue = \<lparr>tasks = [], isProcessing = False\<rparr>,
           draining = [], pushed = [], started = []\<rparr>"

text \<open>
  The states of the queue that the program reaches: tasks are pushed at any moment, and a
  suspended call resumes when its task is done.
\<close>

inductive reachable :: "delivery \<Rightarrow> bool" where
  at_start: "reachable idle"
| after_push: "reachable q \<Longrightarrow> reachable (pushToNotifyQueue task q)"
| after_done: "reachable q \<Longrightarrow> i < length (draining q) \<Longrightarrow> reachable (taskDone i q)"

text \<open>
  What holds of the queue between any two steps: at most one call of \<^verbatim>\<open>processQueue\<close> is
  suspended in its loop, \<^verbatim>\<open>isProcessing\<close> is set exactly while one is, a waiting task has a
  consumer, and the tasks started followed by the tasks waiting are the tasks pushed.
\<close>

definition singleConsumer :: "delivery \<Rightarrow> bool" where
  "singleConsumer q \<longleftrightarrow>
     length (draining q) \<le> 1
     \<and> (isProcessing (notifyQueue q) \<longleftrightarrow> draining q \<noteq> [])
     \<and> (tasks (notifyQueue q) \<noteq> [] \<longrightarrow> draining q \<noteq> [])
     \<and> started q @ tasks (notifyQueue q) = pushed q"

section \<open>Index and group manager\<close>

text \<open>
  A \<^verbatim>\<open>Set<string>\<close> keeps its members once each, in the order they were added: a list, with
  \<^verbatim>\<open>add\<close> and \<^verbatim>\<open>delete\<close> as below and \<^verbatim>\<open>size === 0\<close> as \<open>[]\<close>.
\<close>

definition setAdd :: "'a \<Rightarrow> 'a list \<Rightarrow> 'a list" where
  "setAdd x xs = (if x \<in> set xs then xs else xs @ [x])"

definition setDelete :: "'a \<Rightarrow> 'a list \<Rightarrow> 'a list" where
  "setDelete x xs = removeAll x xs"

record alertGroup =
  symbol :: string
  interval :: int
  alertIds :: "string list"
  nextRunAt :: int

text \<open>
  The key \<^verbatim>\<open>`${symbol}:${interval}`\<close>. The digits of a number hold no colon, so the string
  splits at its last colon into the symbol and the interval it was made of: the key is
  modelled as that pair.
\<close>

type_synonym groupKey = "string \<times> int"

definition makeGroupKey :: "string \<Rightarrow> int \<Rightarrow> groupKey" where
  "makeGroupKey s n = (s, n)"

text \<open>The three module-level maps.\<close>

record engine =
  alertsById :: "string \<rightharpoonup> alertWithState"
  enabledAlertsBySymbol :: "string \<rightharpoonup> string list"
  groups :: "groupKey \<rightharpoonup> alertGroup"

text \<open>
  Four fragments that the source repeats word for word in \<^verbatim>\<open>rebuildFromDb\<close> and in the
  branches of \<^verbatim>\<open>applyChange\<close>.

  \<^verbatim>\<open>if (!enabledAlertsBySymbol.has(s)) enabledAlertsBySymbol.set(s, new Set());\<close>
  \<^verbatim>\<open>enabledAlertsBySymbol.get(s)!.add(id);\<close>
\<close>

definition symbolIndexAdd :: "string \<Rightarrow> string \<Rightarrow> engine \<Rightarrow> engine" where
  "symbolIndexAdd s i e =
     (let m = (if enabledAlertsBySymbol e s = None
               then (enabledAlertsBySymbol e)(s \<mapsto> []) else enabledAlertsBySymbol e)
      in e\<lparr>enabledAlertsBySymbol := m(s \<mapsto> setAdd i (js_nullish (m s) []))\<rparr>)"

text \<open>
  \<^verbatim>\<open>const symbolAlerts = enabledAlertsBySymbol.get(s);\<close>
  \<^verbatim>\<open>if (symbolAlerts) { symbolAlerts.delete(id);\<close>
  \<^verbatim>\<open>  if (symbolAlerts.size === 0) enabledAlertsBySymbol.delete(s); }\<close>
\<close>

definition symbolIndexRemove :: "string \<Rightarrow> string \<Rightarrow> engine \<Rightarrow> engine" where
  "symbolIndexRemove s i e =
     (case enabledAlertsBySymbol e s of
        None \<Rightarrow> e
      | Some symbolAlerts \<Rightarrow>
          (let symbolAlerts = setDelete i symbolAlerts
           in if length symbolAlerts = 0
              then e\<lparr>enabledAlertsBySymbol := (enabledAlertsBySymbol e)(s := None)\<rparr>
              else e\<lparr>enabledAlertsBySymbol := (enabledAlertsBySymbol e)(s \<mapsto> symbolAlerts)\<rparr>))"

text \<open>
  \<^verbatim>\<open>const groupKey = makeGroupKey(s, n);\<close>
  \<^verbatim>\<open>if (!groups.has(groupKey)) groups.set(groupKey,\<close>
  \<^verbatim>\<open>  { symbol: s, interval: n, alertIds: new Set(), nextRunAt: now + n });\<close>
  \<^verbatim>\<open>groups.get(groupKey)!.alertIds.add(id);\<close>
\<close>

definition groupAdd :: "string \<Rightarrow> int \<Rightarrow> string \<Rightarrow> int \<Rightarrow> engine \<Rightarrow> engine" where
  "groupAdd s n i now e =
     (let groupKey = makeGroupKey s n;
          group' = (case groups e groupKey of
                     None \<Rightarrow> \<lparr>symbol = s, interval = n, alertIds = [], nextRunAt = now + n\<rparr>
                   | Some g \<Rightarrow> g)
      in e\<lparr>groups := (groups e)(groupKey \<mapsto> group'\<lparr>alertIds := setAdd i (alertIds group')\<rparr>)\<rparr>)"

text \<open>
  \<^verbatim>\<open>const groupKey = makeGroupKey(s, n); const group = groups.get(groupKey);\<close>
  \<^verbatim>\<open>if (group) { group.alertIds.delete(id);\<close>
  \<^verbatim>\<open>  if (group.alertIds.size === 0) groups.delete(groupKey); }\<close>
\<close>

definition groupRemove :: "string \<Rightarrow> int \<Rightarrow> string \<Rightarrow> engine \<Rightarrow> engine" where
  "groupRemove s n i e =
     (let groupKey = makeGroupKey s n
      in case groups e groupKey of
           None \<Rightarrow> e
         | Some group' \<Rightarrow>
             (let group' = group'\<lparr>alertIds := setDelete i (alertIds group')\<rparr>
              in if length (alertIds group') = 0
                 then e\<lparr>groups := (groups e)(groupKey := None)\<rparr>
                 else e\<lparr>groups := (groups e)(groupKey \<mapsto> group')\<rparr>))"

definition emptyEngine :: engine where
  "emptyEngine = \<lparr>alertsById = Map.empty, enabledAlertsBySymbol = Map.empty, groups = Map.empty\<rparr>"

text \<open>
  \<^verbatim>\<open>rebuildFromDb()\<close>: the three maps are cleared and filled from the enabled rows; \<open>now\<close> is
  read once, before the loop. \<open>indexAlert\<close> is the body of the loop.
\<close>

definition indexAlert :: "int \<Rightarrow> engine \<Rightarrow> alert \<Rightarrow> engine" where
  "indexAlert now e alert =
     groupAdd (alert.symbol alert) (poll_interval_sec alert) (id' alert) now
       (symbolIndexAdd (alert.symbol alert) (id' alert)
          (e\<lparr>alertsById := (alertsById e)(id' alert \<mapsto> withState alert)\<rparr>))"

definition rebuildFromDb :: "db \<Rightarrow> int \<Rightarrow> engine" where
  "rebuildFromDb d now = foldl (indexAlert now) emptyEngine (getEnabledAlerts d)"

datatype action = Upsert | Update | Delete

text \<open>\<^verbatim>\<open>applyChange(action, alert)\<close>, with \<open>now\<close> the clock reading of its first line.\<close>

definition applyChange :: "action \<Rightarrow> alert \<Rightarrow> int \<Rightarrow> engine \<Rightarrow> engine" where
  "applyChange action alert now e =
     (if action = Delete then
        (let e = (case alertsById e (id' alert) of
                    None \<Rightarrow> e
                  | Some oldAlert \<Rightarrow>
                      groupRemove (alert.symbol oldAlert) (poll_interval_sec oldAlert) (id' alert)
                        (symbolIndexRemove (alert.symbol oldAlert) (id' alert) e))
         in e\<lparr>alertsById := (alertsById e)(id' alert := None)\<rparr>)
      else
        (let alertWithState = withState alert;
             oldAlert = alertsById e (id' alert)
         in if is_enabled alert then
              (let e = e\<lparr>alertsById := (alertsById e)(id' alert \<mapsto> alertWithState)\<rparr>;
                   e = symbolIndexAdd (alert.symbol alert) (id' alert) e;
                   e = (case oldAlert of
                          None \<Rightarrow> e
                        | Some old \<Rightarrow>
                            if poll_interval_sec old \<noteq> poll_interval_sec alert
                               \<or> alert.symbol old \<noteq> alert.symbol alert
                            then groupRemove (alert.symbol old) (poll_interval_sec old) (id' alert) e
                            else e)
               in groupAdd (alert.symbol alert) (poll_interval_sec alert) (id' alert) now e)
            else
              (let e = e\<lparr>alertsById := (alertsById e)(id' alert := None)\<rparr>
               in case oldAlert of
                    None \<Rightarrow> e
                  | Some old \<Rightarrow>
                      groupRemove (alert.symbol old) (poll_interval_sec old) (id' alert)
                        (symbolIndexRemove (alert.symbol old) (id' alert) e))))"

section \<open>Group tick\<close>

record priceResult =
  price :: real
  price_ts :: int

text \<open>
  The program state that a tick reads and writes: the maps of the engine, the store, and the
  delivery queue.
\<close>

record world =
  engine :: engine
  store :: db
  queue :: delivery

text \<open>
  The body of the loop over \<^verbatim>\<open>group.alertIds\<close> in \<^verbatim>\<open>executeGroupTick\<close> of the TypeScript
  engine. \<open>now\<close> is the tick's clock reading and \<open>dbNow\<close> the one that \<^verbatim>\<open>updateAlert\<close> takes for
  itself. The evaluator has written the state of the alert object held by \<^verbatim>\<open>alertsById\<close>, so
  the alert it returns is put back under its id.
\<close>

definition tickAlert :: "(real \<Rightarrow> string) \<Rightarrow> int \<Rightarrow> int \<Rightarrow> real \<Rightarrow> string \<Rightarrow> world \<Rightarrow> world" where
  "tickAlert str now dbNow price' alertId' w =
     (case alertsById (engine w) alertId' of
        None \<Rightarrow> w
      | Some alert \<Rightarrow>
          if \<not> is_enabled alert then w
          else
            (let (result, alert) = shouldTrigger str alert now price'
             in if triggered result then
                  (let alert = alert\<lparr>last_triggered_at := Some now\<rparr>;
                       d = updateAlert (id' alert)
                             \<lparr>upd_last_triggered_at = Some now,
                              upd_last_state = Some (lastState' alert)\<rparr> dbNow (store w);
                       (eventId', d) = createAlertEvent
                             \<lparr>alert_id = id' alert, event_type = ''trigger'',
                              alertEvent.reason = Some (triggerResult.reason result),
                              alertEvent.price = Some price',
                              alertEvent.threshold = Some (alert.threshold alert),
                              notify_status = ''queued'', error_message = None,
                              triggered_at = now\<rparr> d;
                       q = pushToNotifyQueue
                             \<lparr>eventId = eventId', alertId = id' alert,
                              notifyTask.symbol = alert.symbol alert,
                              conditionType = condition_type alert,
                              notifyTask.threshold = alert.threshold alert,
                              notifyTask.price = price',
                              notifyTask.reason = triggerResult.reason result,
                              triggeredAt = now\<rparr> (queue w)
                   in w\<lparr>engine := (engine w)\<lparr>alertsById := (alertsById (engine w))(alertId' \<mapsto> alert)\<rparr>,
                        store := d, queue := q\<rparr>)
                else
                  w\<lparr>engine := (engine w)\<lparr>alertsById := (alertsById (engine w))(alertId' \<mapsto> alert)\<rparr>,
                    store := updateAlert (id' alert)
                               \<lparr>upd_last_triggered_at = None,
                                upd_last_state = Some (lastState' alert)\<rparr> dbNow (store w)\<rparr>))"

text \<open>
  \<^verbatim>\<open>executeGroupTick(group)\<close>. The group object is the one that \<^verbatim>\<open>groups\<close> holds under
  \<open>groupKey\<close>, so the assignment to \<^verbatim>\<open>group.nextRunAt\<close> is an update of the map. \<open>fetched\<close> is
  what \<^verbatim>\<open>await getSpotPrice(group.symbol)\<close> gives: \<open>Inl\<close> the message of the error it throws,
  \<open>Inr\<close> the price. The tick runs from the fetch to its end without other code in between.
\<close>

definition executeGroupTick ::
  "(real \<Rightarrow> string) \<Rightarrow> groupKey \<Rightarrow> int \<Rightarrow> int \<Rightarrow> string + priceResult \<Rightarrow> world \<Rightarrow> world" where
  "executeGroupTick str groupKey now dbNow fetched w =
     (case groups (engine w) groupKey of
        None \<Rightarrow> w
      | Some group' \<Rightarrow>
          (case fetched of
             Inl error \<Rightarrow> w
           | Inr priceResult \<Rightarrow>
               (let w = foldl (\<lambda>w alertId'. tickAlert str now dbNow (priceResult.price priceResult) alertId' w)
                          w (alertIds group')
                in w\<lparr>engine := (engine w)\<lparr>groups :=
                       (groups (engine w))(groupKey \<mapsto> group'\<lparr>nextRunAt := now + interval group'\<rparr>)\<rparr>\<rparr>)))"

section \<open>Consistency of the derived structures\<close>

text \<open>The keys of the groups whose rule-id set holds the id \<open>i\<close>.\<close>

definition groupsOf :: "engine \<Rightarrow> string \<Rightarrow> groupKey set" where
  "groupsOf e i = {k. \<exists>g. groups e k = Some g \<and> i \<in> set (alertIds g)}"

text \<open>No group has an empty rule-id set.\<close>

definition noEmptyGroup :: "engine \<Rightarrow> bool" where
  "noEmptyGroup e \<longleftrightarrow> (\<forall>k g. groups e k = Some g \<longrightarrow> alertIds g \<noteq> [])"

text \<open>
  The group map agrees with the by-id index: a rule of the index carries its own id, is
  enabled, and is a member of exactly one group, the one keyed by its symbol and interval; an
  id outside the index is a member of no group; and no group has an empty rule-id set.
\<close>

definition consistent :: "engine \<Rightarrow> bool" where
  "consistent e \<longleftrightarrow>
     (\<forall>i a. alertsById e i = Some a \<longrightarrow>
        id' a = i \<and> is_enabled a
        \<and> groupsOf e i = {makeGroupKey (alert.symbol a) (poll_interval_sec a)})
     \<and> (\<forall>i. alertsById e i = None \<longrightarrow> groupsOf e i = {})
     \<and> noEmptyGroup e"

text \<open>A sequence of calls of \<^verbatim>\<open>applyChange\<close>, each with its clock reading.\<close>

definition applyChanges :: "(action \<times> alert \<times> int) list \<Rightarrow> engine \<Rightarrow> engine" where
  "applyChanges changes e = foldl (\<lambda>e (action, alert, now). applyChange action alert now e) e changes"

section \<open>Scenarios\<close>

text \<open>
  The rule of the scenarios: \<^verbatim>\<open>BTCUSDT\<close> polled every 5 seconds, with the condition kind, the
  threshold, the cooldown, the last trigger time and the evaluator state left open.
\<close>

definition scenarioRule ::
  "string \<Rightarrow> real \<Rightarrow> int \<Rightarrow> int option \<Rightarrow> lastState \<Rightarrow> alertWithState" where
  "scenarioRule kind limit cooldown lastTriggered st =
     \<lparr>id' = ''a1'', alert.symbol = ''BTCUSDT'', condition_type = kind, alert.threshold = limit,
      poll_interval_sec = 5, cooldown_sec = cooldown, is_enabled = True,
      last_triggered_at = lastTriggered, last_state = None, created_at = 0, updated_at = 0,
      lastState' = st\<rparr>"

text \<open>
  A program state holding that one rule: indexed, stored, alone in its group, which is due at
  1000, with no event yet and an idle queue.
\<close>

definition scenarioWorld :: "alertWithState \<Rightarrow> world" where
  "scenarioWorld rule =
     \<lparr>engine =
        \<lparr>alertsById = [id' rule \<mapsto> rule],
         enabledAlertsBySymbol = [alert.symbol rule \<mapsto> [id' rule]],
         groups = [makeGroupKey (alert.symbol rule) (poll_interval_sec rule) \<mapsto>
                     \<lparr>symbol = alert.symbol rule, interval = poll_interval_sec rule,
                      alertIds = [id' rule], nextRunAt = 1000\<rparr>]\<rparr>,
      store = \<lparr>alerts = [alert.truncate rule], alert_events = Map.empty, lastInsertRowid = 0\<rparr>,
      queue = idle\<rparr>"

text \<open>
  The event and the notification task of a trigger of the \<^verbatim>\<open>price_gte\<close> rule at 50100, as
  \<^verbatim>\<open>executeGroupTick\<close> creates them, in a store that holds this one event under the id 1.
\<close>

definition scenarioEvent :: alertEvent where
  "scenarioEvent =
     \<lparr>alert_id = ''a1'', event_type = ''trigger'',
      alertEvent.reason = Some ''price_gte: 50100 >= 50000'', alertEvent.price = Some 50100,
      alertEvent.threshold = Some 50000, notify_status = ''queued'', error_message = None,
      triggered_at = 1005\<rparr>"

definition scenarioTask :: notifyTask where
  "scenarioTask =
     \<lparr>eventId = 1, alertId = ''a1'', notifyTask.symbol = ''BTCUSDT'',
      conditionType = ''price_gte'', notifyTask.threshold = 50000, notifyTask.price = 50100,
      notifyTask.reason = ''price_gte: 50100 >= 50000'', triggeredAt = 1005\<rparr>"

definition scenarioStore :: db where
  "scenarioStore = \<lparr>alerts = [], alert_events = [1 \<mapsto> scenarioEvent], lastInsertRowid = 1\<rparr>"

text \<open>
  The test that opens \<^verbatim>\<open>shouldTrigger\<close>:
  \<^verbatim>\<open>alert.last_triggered_at && now - alert.last_triggered_at < alert.cooldown_sec\<close>.
\<close>

definition cooling :: "alertWithState \<Rightarrow> int \<Rightarrow> bool" where
  "cooling alert now =
     (case last_triggered_at alert of
        None \<Rightarrow> False
      | Some t \<Rightarrow> t \<noteq> 0 \<and> now - t < cooldown_sec alert)"

section \<open>Evaluation of the arithmetic and of the string conversions\<close>

lemma halvings_step:
  "0 < n \<Longrightarrow> halvings n x = (if x < 2 then 0 else 1 + halvings (n - 1) (x / 2))"
  by (cases n) simp_all

lemma doublings_step:
  "0 < n \<Longrightarrow> doublings n x = (if 1 \<le> x then 0 else doublings (n - 1) (x * 2) - 1)"
  by (cases n) simp_all

lemmas round_eval = binade_def halvings_step doublings_step pow2_def roundEven_def

lemma dsub_110_100: "dsub 110 100 = 10"
  unfolding dsub_def roundDouble_def Let_def by (simp add: round_eval)

lemma ddiv_10_100: "ddiv 10 100 = 3602879701896397 / 36028797018963968"
  unfolding ddiv_def roundDouble_def Let_def by (simp add: round_eval)

lemma dmul_tenth_100: "dmul (3602879701896397 / 36028797018963968) 100 = 10"
  unfolding dmul_def roundDouble_def Let_def by (simp add: round_eval)

lemma change_110_100: "dmul (ddiv (dsub 110 100) 100) 100 = 10"
  by (simp add: dsub_110_100 ddiv_10_100 dmul_tenth_100)

lemma dsub_112_100: "dsub 112 100 = 12"
  unfolding dsub_def roundDouble_def Let_def by (simp add: round_eval)

lemma ddiv_12_100: "ddiv 12 100 = 1080863910568919 / 9007199254740992"
  unfolding ddiv_def roundDouble_def Let_def by (simp add: round_eval)

lemma dmul_12_hundredths_100: "dmul (1080863910568919 / 9007199254740992) 100 = 12"
  unfolding dmul_def roundDouble_def Let_def by (simp add: round_eval)

lemma change_112_100: "dmul (ddiv (dsub 112 100) 100) 100 = 12"
  by (simp add: dsub_112_100 ddiv_12_100 dmul_12_hundredths_100)

text \<open>
  Two computations in which the rounding shows. From 200000 to 202010 the exact change is
  1.005 percent and the computed one is just below it; from 100 to 129 the exact change is 29
  percent and the computed one is just below 29.
\<close>

lemma dsub_202010_200000: "dsub 202010 200000 = 2010"
  unfolding dsub_def roundDouble_def Let_def by (simp add: round_eval)

lemma ddiv_2010_200000: "ddiv 2010 200000 = 2896715280324703 / 288230376151711744"
  unfolding ddiv_def roundDouble_def Let_def by (simp add: round_eval)

lemma dmul_2010_200000_100:
  "dmul (2896715280324703 / 288230376151711744) 100 = 1131529406376837 / 1125899906842624"
  unfolding dmul_def roundDouble_def Let_def by (simp add: round_eval)

lemma change_202010_200000:
  "dmul (ddiv (dsub 202010 200000) 200000) 100 = 1131529406376837 / 1125899906842624"
  by (simp add: dsub_202010_200000 ddiv_2010_200000 dmul_2010_200000_100)

lemma dsub_129_100: "dsub 129 100 = 29"
  unfolding dsub_def roundDouble_def Let_def by (simp add: round_eval)

lemma ddiv_29_100: "ddiv 29 100 = 5224175567749775 / 18014398509481984"
  unfolding ddiv_def roundDouble_def Let_def by (simp add: round_eval)

lemma dmul_29_hundredths_100:
  "dmul (5224175567749775 / 18014398509481984) 100 = 8162774324609023 / 281474976710656"
  unfolding dmul_def roundDouble_def Let_def by (simp add: round_eval)

lemma change_129_100: "dmul (ddiv (dsub 129 100) 100) 100 = 8162774324609023 / 281474976710656"
  by (simp add: dsub_129_100 ddiv_29_100 dmul_29_hundredths_100)


lemma natStr_digit: "n < 10 \<Longrightarrow> natStr n = [digit n]"
  by (simp add: natStr.simps)

lemma natStr_more: "\<not> n < 10 \<Longrightarrow> natStr n = natStr (n div 10) @ [digit (n mod 10)]"
  by (subst natStr.simps) simp

lemmas str_eval = decimalStr_def natStr_digit natStr_more digit_def toFixed_def Let_def

lemma decimalStr_50100: "decimalStr 50100 = ''50100''"
  by (simp add: str_eval)

lemma decimalStr_50000: "decimalStr 50000 = ''50000''"
  by (simp add: str_eval)

lemma decimalStr_110: "decimalStr 110 = ''110''"
  by (simp add: str_eval)

lemma decimalStr_100: "decimalStr 100 = ''100''"
  by (simp add: str_eval)

lemma toFixed_10: "toFixed decimalStr 2 10 = ''10.00''"
  by (simp add: str_eval)

section \<open>The condition evaluator: cooldown and level rules\<close>

lemma shouldTrigger_cooling:
  "cooling alert now \<Longrightarrow>
     shouldTrigger str alert now p = (\<lparr>triggered = False, reason = ''cooldown''\<rparr>, alert)"
  by (simp add: shouldTrigger_def cooling_def)

lemma shouldTrigger_cjs_cooling:
  "cooling alert now \<Longrightarrow>
     shouldTrigger_cjs str alert now p = (\<lparr>triggered = False, reason = ''cooldown''\<rparr>, alert)"
  by (simp add: shouldTrigger_cjs_def cooling_def)

lemma price_gte_level:
  "\<not> cooling alert now \<Longrightarrow> condition_type alert = ''price_gte'' \<Longrightarrow>
     triggered (fst (shouldTrigger str alert now p)) = (alert.threshold alert \<le> p)"
  by (simp add: shouldTrigger_def cooling_def noConditionMet_def Let_def)

lemma price_lte_level:
  "\<not> cooling alert now \<Longrightarrow> condition_type alert = ''price_lte'' \<Longrightarrow>
     triggered (fst (shouldTrigger str alert now p)) = (p \<le> alert.threshold alert)"
  by (simp add: shouldTrigger_def cooling_def noConditionMet_def Let_def)

text \<open>
  C4. Let a rule have \<^verbatim>\<open>last_triggered_at\<close> set, that is, holding a timestamp \<open>t\<close> that the
  source's test \<^verbatim>\<open>alert.last_triggered_at && ...\<close> takes as present (not null and not 0). An
  evaluation at \<open>now\<close> with \<open>now - t < cooldown_sec\<close> returns non-triggered with reason
  \<^verbatim>\<open>cooldown\<close> and the alert, its evaluator state included, as it was. At
  \<open>now = t + cooldown_sec\<close> the rule is out of the window. Out of the window a \<^verbatim>\<open>price_gte\<close>
  rule triggers exactly when \<open>price \<ge> threshold\<close> and a \<^verbatim>\<open>price_lte\<close> rule exactly when
  \<open>price \<le> threshold\<close>, whatever the evaluator state holds.
\<close>

theorem cooldown_window_then_level_trigger:
  "(last_triggered_at alert = Some t \<and> t \<noteq> 0 \<and> now - t < cooldown_sec alert \<longrightarrow>
      shouldTrigger str alert now p = (\<lparr>triggered = False, reason = ''cooldown''\<rparr>, alert))
   \<and> (last_triggered_at alert = Some t \<longrightarrow> \<not> cooling alert (t + cooldown_sec alert))
   \<and> (\<not> cooling alert now \<and> condition_type alert = ''price_gte'' \<longrightarrow>
        triggered (fst (shouldTrigger str alert now p)) = (alert.threshold alert \<le> p))
   \<and> (\<not> cooling alert now \<and> condition_type alert = ''price_lte'' \<longrightarrow>
        triggered (fst (shouldTrigger str alert now p)) = (p \<le> alert.threshold alert))"
proof -
  have "last_triggered_at alert = Some t \<and> t \<noteq> 0 \<and> now - t < cooldown_sec alert \<longrightarrow>
      shouldTrigger str alert now p = (\<lparr>triggered = False, reason = ''cooldown''\<rparr>, alert)"
    by (simp add: shouldTrigger_cooling cooling_def)
  moreover have "last_triggered_at alert = Some t \<longrightarrow> \<not> cooling alert (t + cooldown_sec alert)"
    by (simp add: cooling_def)
  ultimately show ?thesis
    using price_gte_level [of alert now str p] price_lte_level [of alert now str p] by blast
qed

theorem cooldown_window_then_level_trigger_witness:
  "shouldTrigger decimalStr (scenarioRule ''price_gte'' 50000 300 (Some 1000) emptyState) 1299 50100
     = (\<lparr>triggered = False, reason = ''cooldown''\<rparr>,
        scenarioRule ''price_gte'' 50000 300 (Some 1000) emptyState)
   \<and> \<not> cooling (scenarioRule ''price_gte'' 50000 300 (Some 1000) emptyState) (1000 + 300)
   \<and> triggered (fst (shouldTrigger decimalStr
        (scenarioRule ''price_gte'' 50000 300 (Some 1000) emptyState) 1300 50100))
   \<and> \<not> triggered (fst (shouldTrigger decimalStr
        (scenarioRule ''price_gte'' 50000 300 (Some 1000) emptyState) 1300 49000))
   \<and> triggered (fst (shouldTrigger decimalStr
        (scenarioRule ''price_lte'' 50000 300 (Some 1000) emptyState) 1300 49000))"
  using
    cooldown_window_then_level_trigger
      [of "scenarioRule ''price_gte'' 50000 300 (Some 1000) emptyState" 1000 1299 decimalStr 50100]
    cooldown_window_then_level_trigger
      [of "scenarioRule ''price_gte'' 50000 300 (Some 1000) emptyState" 1000 1300 decimalStr 50100]
    cooldown_window_then_level_trigger
      [of "scenarioRule ''price_gte'' 50000 300 (Some 1000) emptyState" 1000 1300 decimalStr 49000]
    cooldown_window_then_level_trigger
      [of "scenarioRule ''price_lte'' 50000 300 (Some 1000) emptyState" 1000 1300 decimalStr 49000]
  by (simp add: scenarioRule_def cooling_def)

section \<open>The condition evaluator: crossings\<close>










lemmas rule_eval = shouldTrigger_def shouldTrigger_cjs_def scenarioRule_def emptyState_def
  noConditionMet_def cooling_def Let_def


lemmas tick_eval = executeGroupTick_def tickAlert_def scenarioWorld_def makeGroupKey_def
  updateAlert_def createAlertEvent_def pushToNotifyQueue_def processQueue_def drainLoop_def
  idle_def alert.defs

text \<open>
  C3, as the code has it. A \<^verbatim>\<open>cross_up\<close> rule with threshold 100 and no cooldown is ticked at
  the prices 90, 110 and 120. The tick at 110 triggers and, returning from inside the case,
  leaves \<^verbatim>\<open>wasAbove\<close> at \<open>false\<close>; so the tick at 120 triggers again: two events and two
  notification tasks, and the flag is still \<open>false\<close> after the third tick. In the evaluator
  alone, of either engine, the three results are no trigger, trigger, trigger.
\<close>

theorem cross_up_triggers_again_while_above:
  "(let w0 = scenarioWorld (scenarioRule ''cross_up'' 100 0 None emptyState);
        w1 = executeGroupTick decimalStr (''BTCUSDT'', 5) 1000 1000 (Inr \<lparr>price = 90, price_ts = 1000\<rparr>) w0;
        w2 = executeGroupTick decimalStr (''BTCUSDT'', 5) 1005 1005 (Inr \<lparr>price = 110, price_ts = 1005\<rparr>) w1;
        w3 = executeGroupTick decimalStr (''BTCUSDT'', 5) 1010 1010 (Inr \<lparr>price = 120, price_ts = 1010\<rparr>) w2
    in map notifyTask.price (pushed (queue w1)) = []
       \<and> map notifyTask.price (pushed (queue w2)) = [110]
       \<and> map notifyTask.price (pushed (queue w3)) = [110, 120]
       \<and> lastInsertRowid (store w3) = 2
       \<and> map_option (\<lambda>a. wasAbove (lastState' a)) (alertsById (engine w2) ''a1'') = Some (Some False)
       \<and> map_option (\<lambda>a. wasAbove (lastState' a)) (alertsById (engine w3) ''a1'') = Some (Some False))
   \<and> (let a0 = scenarioRule ''cross_up'' 100 0 None emptyState;
            (r1, a1) = shouldTrigger decimalStr a0 1000 90;
            (r2, a2) = shouldTrigger decimalStr a1 1005 110;
            (r3, a3) = shouldTrigger decimalStr a2 1010 120
        in [triggered r1, triggered r2, triggered r3] = [False, True, True]
           \<and> wasAbove (lastState' a2) = Some False)
   \<and> (let a0 = scenarioRule ''cross_up'' 100 0 None emptyState;
            (r1, a1) = shouldTrigger_cjs decimalStr a0 1000 90;
            (r2, a2) = shouldTrigger_cjs decimalStr a1 1005 110;
            (r3, a3) = shouldTrigger_cjs decimalStr a2 1010 120
        in [triggered r1, triggered r2, triggered r3] = [False, True, True]
           \<and> wasAbove (lastState' a2) = Some False)"
  by (simp add: tick_eval rule_eval)

section \<open>The condition evaluator: percent change\<close>

text \<open>
  C2, as the code has it. A \<^verbatim>\<open>pct_change_up\<close> rule with threshold 5 and no cooldown is
  evaluated at the prices 100, 110 and 112. The evaluation at 110 triggers (10 percent over
  the baseline 100) and, returning from inside the case, leaves the baseline at 100 instead of
  storing 110; so the evaluation at 112 triggers again, on 12 percent over 100, where the
  change since the last observation is under 2 percent. Both engines do so.
\<close>

theorem pct_change_keeps_baseline_on_trigger:
  "(let a0 = scenarioRule ''pct_change_up'' 5 0 None emptyState;
        (r1, a1) = shouldTrigger decimalStr a0 1000 100;
        (r2, a2) = shouldTrigger decimalStr a1 1005 110;
        (r3, a3) = shouldTrigger decimalStr a2 1010 112
    in [triggered r1, triggered r2, triggered r3] = [False, True, True]
       \<and> basePrice (lastState' a1) = Some 100
       \<and> basePrice (lastState' a2) = Some 100
       \<and> basePrice (lastState' a3) = Some 100)
   \<and> (let a0 = scenarioRule ''pct_change_up'' 5 0 None emptyState;
            (r1, a1) = shouldTrigger_cjs decimalStr a0 1000 100;
            (r2, a2) = shouldTrigger_cjs decimalStr a1 1005 110;
            (r3, a3) = shouldTrigger_cjs decimalStr a2 1010 112
        in [triggered r1, triggered r2, triggered r3] = [False, True, True]
           \<and> basePrice (lastState' a1) = Some 100
           \<and> basePrice (lastState' a2) = Some 100
           \<and> basePrice (lastState' a3) = Some 100)"
  by (simp add: rule_eval change_110_100 change_112_100)

section \<open>The group tick\<close>

lemma executeGroupTick_failed_fetch:
  "executeGroupTick str k now dbNow (Inl err) w = w"
  by (simp add: executeGroupTick_def split: option.splits)

text \<open>
  C1, as the code has it. The group of the scenario is due at 1000 and is ticked at 1000. With
  a failed price fetch the tick returns from its \<^verbatim>\<open>catch\<close>: the whole state is as before, so no
  rule has changed and no event exists, and \<^verbatim>\<open>nextRunAt\<close> is still 1000. With a price fetched
  the same tick ends on \<^verbatim>\<open>group.nextRunAt = now + group.interval\<close>, which is 1005.
\<close>

theorem failed_fetch_does_not_advance_nextRunAt:
  "(let w = scenarioWorld (scenarioRule ''price_gte'' 50000 300 None emptyState);
        failed = executeGroupTick decimalStr (''BTCUSDT'', 5) 1000 1000
                   (Inl ''Failed to fetch price for BTCUSDT: timeout of 5000ms exceeded'') w;
        fetched = executeGroupTick decimalStr (''BTCUSDT'', 5) 1000 1000
                   (Inr \<lparr>price = 49000, price_ts = 1000\<rparr>) w
    in failed = w
       \<and> map_option nextRunAt (groups (engine failed) (''BTCUSDT'', 5)) = Some 1000
       \<and> map_option nextRunAt (groups (engine fetched) (''BTCUSDT'', 5)) = Some 1005)"
  by (simp add: tick_eval rule_eval)

section \<open>The condition evaluator: the stateful cases apart from the trigger path\<close>

text \<open>
  Out of cooldown, an evaluation that does not trigger stores the flag of a cross and the
  baseline of a percent change.
\<close>

lemma cross_up_untriggered_stores_flag:
  "\<not> cooling alert now \<Longrightarrow> condition_type alert = ''cross_up'' \<Longrightarrow>
   \<not> triggered (fst (shouldTrigger str alert now p)) \<Longrightarrow>
     wasAbove (lastState' (snd (shouldTrigger str alert now p))) = Some (alert.threshold alert \<le> p)"
  by (cases "wasAbove (lastState' alert)")
     (auto simp add: shouldTrigger_def cooling_def noConditionMet_def Let_def split: if_splits)

lemma pct_change_up_untriggered_stores_baseline:
  "\<not> cooling alert now \<Longrightarrow> condition_type alert = ''pct_change_up'' \<Longrightarrow>
   \<not> triggered (fst (shouldTrigger str alert now p)) \<Longrightarrow>
     basePrice (lastState' (snd (shouldTrigger str alert now p))) = Some p"
  by (cases "basePrice (lastState' alert)")
     (auto simp add: shouldTrigger_def cooling_def noConditionMet_def Let_def)

text \<open>
  With a non-zero baseline stored (and, in the TypeScript engine, a positive window, which
  every state written by the evaluator has), a percent-change rule out of cooldown triggers
  exactly on the comparison of the computed percent change with the threshold.
\<close>

lemma pct_change_up_condition:
  "\<not> cooling alert now \<Longrightarrow> condition_type alert = ''pct_change_up'' \<Longrightarrow>
   basePrice (lastState' alert) = Some base \<Longrightarrow> base \<noteq> 0 \<Longrightarrow>
   0 < js_or (windowSec (lastState' alert)) 0 \<Longrightarrow>
     triggered (fst (shouldTrigger str alert now p))
       = (alert.threshold alert \<le> dmul (ddiv (dsub p base) base) 100)"
  by (simp add: shouldTrigger_def cooling_def noConditionMet_def Let_def)

lemma pct_change_down_condition:
  "\<not> cooling alert now \<Longrightarrow> condition_type alert = ''pct_change_down'' \<Longrightarrow>
   basePrice (lastState' alert) = Some base \<Longrightarrow> base \<noteq> 0 \<Longrightarrow>
   0 < js_or (windowSec (lastState' alert)) 0 \<Longrightarrow>
     triggered (fst (shouldTrigger str alert now p))
       = (dmul (ddiv (dsub p base) base) 100 \<le> - alert.threshold alert)"
  by (simp add: shouldTrigger_def cooling_def noConditionMet_def Let_def)

lemma pct_change_up_condition_cjs:
  "\<not> cooling alert now \<Longrightarrow> condition_type alert = ''pct_change_up'' \<Longrightarrow>
   basePrice (lastState' alert) = Some base \<Longrightarrow> base \<noteq> 0 \<Longrightarrow>
     triggered (fst (shouldTrigger_cjs str alert now p))
       = (alert.threshold alert \<le> dmul (ddiv (dsub p base) base) 100)"
  by (simp add: shouldTrigger_cjs_def cooling_def noConditionMet_def Let_def)

lemma pct_change_down_condition_cjs:
  "\<not> cooling alert now \<Longrightarrow> condition_type alert = ''pct_change_down'' \<Longrightarrow>
   basePrice (lastState' alert) = Some base \<Longrightarrow> base \<noteq> 0 \<Longrightarrow>
     triggered (fst (shouldTrigger_cjs str alert now p))
       = (dmul (ddiv (dsub p base) base) 100 \<le> - alert.threshold alert)"
  by (simp add: shouldTrigger_cjs_def cooling_def noConditionMet_def Let_def)

text \<open>
  The comparison is made on the computed change: from the baseline 100 to the price 129 with
  the threshold 29 the evaluator of either engine does not trigger, and stores the price.
\<close>

lemma pct_change_up_just_below_threshold:
  "\<not> triggered (fst (shouldTrigger decimalStr
       (scenarioRule ''pct_change_up'' 29 0 None
          (emptyState\<lparr>basePrice := Some 100, windowSec := Some 60\<rparr>)) 1005 129))
   \<and> basePrice (lastState' (snd (shouldTrigger decimalStr
       (scenarioRule ''pct_change_up'' 29 0 None
          (emptyState\<lparr>basePrice := Some 100, windowSec := Some 60\<rparr>)) 1005 129))) = Some 129
   \<and> \<not> triggered (fst (shouldTrigger_cjs decimalStr
       (scenarioRule ''pct_change_up'' 29 0 None (emptyState\<lparr>basePrice := Some 100\<rparr>)) 1005 129))
   \<and> basePrice (lastState' (snd (shouldTrigger_cjs decimalStr
       (scenarioRule ''pct_change_up'' 29 0 None (emptyState\<lparr>basePrice := Some 100\<rparr>)) 1005 129)))
       = Some 129"
  by (simp add: rule_eval change_129_100)

section \<open>The condition evaluator: reason strings\<close>

lemma sublist_last: "sublist xs (a @ b @ c @ xs)"
  using sublist_appendI [of xs "a @ b @ c" "[]"] by simp

lemma sublist_second: "sublist xs (a @ xs @ b)"
  by (rule sublist_appendI)

lemma sublist_fourth: "sublist xs (a @ b @ c @ xs @ d)"
  using sublist_appendI [of xs "a @ b @ c" d] by simp

lemma reason_price_gte:
  "condition_type alert = ''price_gte'' \<Longrightarrow> triggered (fst (shouldTrigger str alert now p)) \<Longrightarrow>
     triggerResult.reason (fst (shouldTrigger str alert now p))
       = ''price_gte: '' @ str p @ '' >= '' @ str (alert.threshold alert)"
  by (simp add: shouldTrigger_def noConditionMet_def Let_def split: if_splits)

lemma reason_price_lte:
  "condition_type alert = ''price_lte'' \<Longrightarrow> triggered (fst (shouldTrigger str alert now p)) \<Longrightarrow>
     triggerResult.reason (fst (shouldTrigger str alert now p))
       = ''price_lte: '' @ str p @ '' <= '' @ str (alert.threshold alert)"
  by (simp add: shouldTrigger_def noConditionMet_def Let_def split: if_splits)

lemma reason_pct_change_up:
  "condition_type alert = ''pct_change_up'' \<Longrightarrow> triggered (fst (shouldTrigger str alert now p)) \<Longrightarrow>
     \<exists>base. basePrice (lastState' alert) = Some base \<and>
       triggerResult.reason (fst (shouldTrigger str alert now p))
         = ''pct_change_up: '' @ toFixed str 2 (dmul (ddiv (dsub p base) base) 100) @ ''% >= ''
             @ str (alert.threshold alert) @ ''%''"
  by (cases "basePrice (lastState' alert)")
     (auto simp add: shouldTrigger_def noConditionMet_def Let_def split: if_splits)

lemma reason_pct_change_down:
  "condition_type alert = ''pct_change_down'' \<Longrightarrow> triggered (fst (shouldTrigger str alert now p)) \<Longrightarrow>
     \<exists>base. basePrice (lastState' alert) = Some base \<and>
       triggerResult.reason (fst (shouldTrigger str alert now p))
         = ''pct_change_down: '' @ toFixed str 2 (dmul (ddiv (dsub p base) base) 100) @ ''% <= -''
             @ str (alert.threshold alert) @ ''%''"
  by (cases "basePrice (lastState' alert)")
     (auto simp add: shouldTrigger_def noConditionMet_def Let_def split: if_splits)

lemma reason_price_gte_cjs:
  "condition_type alert = ''price_gte'' \<Longrightarrow> triggered (fst (shouldTrigger_cjs str alert now p)) \<Longrightarrow>
     triggerResult.reason (fst (shouldTrigger_cjs str alert now p))
       = ''price_gte: '' @ str p @ '' >= '' @ str (alert.threshold alert)"
  by (simp add: shouldTrigger_cjs_def noConditionMet_def Let_def split: if_splits)

lemma reason_price_lte_cjs:
  "condition_type alert = ''price_lte'' \<Longrightarrow> triggered (fst (shouldTrigger_cjs str alert now p)) \<Longrightarrow>
     triggerResult.reason (fst (shouldTrigger_cjs str alert now p))
       = ''price_lte: '' @ str p @ '' <= '' @ str (alert.threshold alert)"
  by (simp add: shouldTrigger_cjs_def noConditionMet_def Let_def split: if_splits)

lemma reason_pct_change_up_cjs:
  "condition_type alert = ''pct_change_up'' \<Longrightarrow> triggered (fst (shouldTrigger_cjs str alert now p)) \<Longrightarrow>
     \<exists>base. basePrice (lastState' alert) = Some base \<and>
       triggerResult.reason (fst (shouldTrigger_cjs str alert now p))
         = ''pct_change_up: '' @ toFixed str 2 (dmul (ddiv (dsub p base) base) 100) @ ''% >= ''
             @ str (alert.threshold alert) @ ''%''"
  by (cases "basePrice (lastState' alert)")
     (auto simp add: shouldTrigger_cjs_def noConditionMet_def Let_def split: if_splits)

lemma reason_pct_change_down_cjs:
  "condition_type alert = ''pct_change_down'' \<Longrightarrow> triggered (fst (shouldTrigger_cjs str alert now p)) \<Longrightarrow>
     \<exists>base. basePrice (lastState' alert) = Some base \<and>
       triggerResult.reason (fst (shouldTrigger_cjs str alert now p))
         = ''pct_change_down: '' @ toFixed str 2 (dmul (ddiv (dsub p base) base) 100) @ ''% <= -''
             @ str (alert.threshold alert) @ ''%''"
  by (cases "basePrice (lastState' alert)")
     (auto simp add: shouldTrigger_cjs_def noConditionMet_def Let_def split: if_splits)

lemma reason_cross_up:
  "condition_type alert = ''cross_up'' \<Longrightarrow> triggered (fst (shouldTrigger str alert now p)) \<Longrightarrow>
     triggerResult.reason (fst (shouldTrigger str alert now p)) = ''cross_up: undefined -> true''"
  by (cases "wasAbove (lastState' alert)")
     (auto simp add: shouldTrigger_def noConditionMet_def Let_def split: if_splits)

lemma reason_cross_down:
  "condition_type alert = ''cross_down'' \<Longrightarrow> triggered (fst (shouldTrigger str alert now p)) \<Longrightarrow>
     triggerResult.reason (fst (shouldTrigger str alert now p)) = ''cross_down: undefined -> true''"
  by (cases "wasBelow (lastState' alert)")
     (auto simp add: shouldTrigger_def noConditionMet_def Let_def split: if_splits)

lemma reason_cross_up_cjs:
  "condition_type alert = ''cross_up'' \<Longrightarrow> triggered (fst (shouldTrigger_cjs str alert now p)) \<Longrightarrow>
     triggerResult.reason (fst (shouldTrigger_cjs str alert now p)) = ''cross_up: false -> true''"
  by (cases "wasAbove (lastState' alert)")
     (auto simp add: shouldTrigger_cjs_def noConditionMet_def Let_def split: if_splits)

lemma reason_cross_down_cjs:
  "condition_type alert = ''cross_down'' \<Longrightarrow> triggered (fst (shouldTrigger_cjs str alert now p)) \<Longrightarrow>
     triggerResult.reason (fst (shouldTrigger_cjs str alert now p)) = ''cross_down: false -> true''"
  by (cases "wasBelow (lastState' alert)")
     (auto simp add: shouldTrigger_cjs_def noConditionMet_def Let_def split: if_splits)

text \<open>
  C9, as stated, fails on a cross. A \<^verbatim>\<open>cross_up\<close> rule with threshold 100 whose stored flag is
  \<open>false\<close> triggers at the price 110, and the reason is the fixed text of the flag transition
  (\<^verbatim>\<open>cross_up: undefined -> true\<close> in the TypeScript engine, \<^verbatim>\<open>cross_up: false -> true\<close> in
  the CommonJS one): it holds neither the price nor the threshold.
\<close>

theorem cross_up_reason_holds_no_number:
  "triggered (fst (shouldTrigger decimalStr
     (scenarioRule ''cross_up'' 100 0 None (emptyState\<lparr>wasAbove := Some False\<rparr>)) 1005 110))
   \<and> triggerResult.reason (fst (shouldTrigger decimalStr
        (scenarioRule ''cross_up'' 100 0 None (emptyState\<lparr>wasAbove := Some False\<rparr>)) 1005 110))
       = ''cross_up: undefined -> true''
   \<and> \<not> sublist (decimalStr 110) (triggerResult.reason (fst (shouldTrigger decimalStr
        (scenarioRule ''cross_up'' 100 0 None (emptyState\<lparr>wasAbove := Some False\<rparr>)) 1005 110)))
   \<and> \<not> sublist (decimalStr 100) (triggerResult.reason (fst (shouldTrigger decimalStr
        (scenarioRule ''cross_up'' 100 0 None (emptyState\<lparr>wasAbove := Some False\<rparr>)) 1005 110)))
   \<and> triggered (fst (shouldTrigger_cjs decimalStr
        (scenarioRule ''cross_up'' 100 0 None (emptyState\<lparr>wasAbove := Some False\<rparr>)) 1005 110))
   \<and> triggerResult.reason (fst (shouldTrigger_cjs decimalStr
        (scenarioRule ''cross_up'' 100 0 None (emptyState\<lparr>wasAbove := Some False\<rparr>)) 1005 110))
       = ''cross_up: false -> true''
   \<and> \<not> sublist (decimalStr 110) (triggerResult.reason (fst (shouldTrigger_cjs decimalStr
        (scenarioRule ''cross_up'' 100 0 None (emptyState\<lparr>wasAbove := Some False\<rparr>)) 1005 110)))
   \<and> \<not> sublist (decimalStr 100) (triggerResult.reason (fst (shouldTrigger_cjs decimalStr
        (scenarioRule ''cross_up'' 100 0 None (emptyState\<lparr>wasAbove := Some False\<rparr>)) 1005 110)))"
  by (simp add: rule_eval decimalStr_110 decimalStr_100 sublist_Cons_right)

lemma cross_reason_shape:
  "prefix ''cross_up: '' ''cross_up: undefined -> true''"
  "suffix '' -> true'' ''cross_up: undefined -> true''"
  "set ''cross_up: undefined -> true'' \<inter> set ''0123456789'' = {}"
  "prefix ''cross_up: '' ''cross_up: false -> true''"
  "suffix '' -> true'' ''cross_up: false -> true''"
  "set ''cross_up: false -> true'' \<inter> set ''0123456789'' = {}"
  "prefix ''cross_down: '' ''cross_down: undefined -> true''"
  "suffix '' -> true'' ''cross_down: undefined -> true''"
  "set ''cross_down: undefined -> true'' \<inter> set ''0123456789'' = {}"
  "prefix ''cross_down: '' ''cross_down: false -> true''"
  "suffix '' -> true'' ''cross_down: false -> true''"
  "set ''cross_down: false -> true'' \<inter> set ''0123456789'' = {}"
  by (simp_all add: suffix_def)

text \<open>
  C9, amended. Let \<open>ev\<close> be the evaluator of either engine and \<open>str\<close> the runtime's conversion
  of a number to a string. Whenever \<open>ev\<close> returns triggered: the reason of a \<^verbatim>\<open>price_gte\<close> or
  \<^verbatim>\<open>price_lte\<close> rule is the kind, the price, the comparison sign and the threshold, so it
  holds the price and the threshold as printed; the reason of a \<^verbatim>\<open>pct_change_up\<close> or
  \<^verbatim>\<open>pct_change_down\<close> rule holds the percent change over the stored baseline, as the double
  arithmetic of the evaluator computes it and printed with two decimals, and the threshold;
  the reason of a \<^verbatim>\<open>cross_up\<close> or \<^verbatim>\<open>cross_down\<close> rule starts with the kind, ends with
  \<^verbatim>\<open>-> true\<close> and holds no digit.
\<close>

theorem triggered_reason_embeds_comparison:
  assumes "ev = shouldTrigger \<or> ev = shouldTrigger_cjs"
    and "triggered (fst (ev str alert now p))"
  shows
    "(condition_type alert = ''price_gte'' \<longrightarrow>
        triggerResult.reason (fst (ev str alert now p))
          = ''price_gte: '' @ str p @ '' >= '' @ str (alert.threshold alert)
        \<and> sublist (str p) (triggerResult.reason (fst (ev str alert now p)))
        \<and> sublist (str (alert.threshold alert)) (triggerResult.reason (fst (ev str alert now p))))
     \<and> (condition_type alert = ''price_lte'' \<longrightarrow>
        triggerResult.reason (fst (ev str alert now p))
          = ''price_lte: '' @ str p @ '' <= '' @ str (alert.threshold alert)
        \<and> sublist (str p) (triggerResult.reason (fst (ev str alert now p)))
        \<and> sublist (str (alert.threshold alert)) (triggerResult.reason (fst (ev str alert now p))))
     \<and> (condition_type alert = ''pct_change_up'' \<longrightarrow>
        (\<exists>base. basePrice (lastState' alert) = Some base
           \<and> triggerResult.reason (fst (ev str alert now p))
               = ''pct_change_up: '' @ toFixed str 2 (dmul (ddiv (dsub p base) base) 100) @ ''% >= ''
                   @ str (alert.threshold alert) @ ''%''
           \<and> sublist (toFixed str 2 (dmul (ddiv (dsub p base) base) 100))
                 (triggerResult.reason (fst (ev str alert now p))))
        \<and> sublist (str (alert.threshold alert)) (triggerResult.reason (fst (ev str alert now p))))
     \<and> (condition_type alert = ''pct_change_down'' \<longrightarrow>
        (\<exists>base. basePrice (lastState' alert) = Some base
           \<and> triggerResult.reason (fst (ev str alert now p))
               = ''pct_change_down: '' @ toFixed str 2 (dmul (ddiv (dsub p base) base) 100) @ ''% <= -''
                   @ str (alert.threshold alert) @ ''%''
           \<and> sublist (toFixed str 2 (dmul (ddiv (dsub p base) base) 100))
                 (triggerResult.reason (fst (ev str alert now p))))
        \<and> sublist (str (alert.threshold alert)) (triggerResult.reason (fst (ev str alert now p))))
     \<and> (condition_type alert = ''cross_up'' \<longrightarrow>
        prefix ''cross_up: '' (triggerResult.reason (fst (ev str alert now p)))
        \<and> suffix '' -> true'' (triggerResult.reason (fst (ev str alert now p)))
        \<and> set (triggerResult.reason (fst (ev str alert now p))) \<inter> set ''0123456789'' = {})
     \<and> (condition_type alert = ''cross_down'' \<longrightarrow>
        prefix ''cross_down: '' (triggerResult.reason (fst (ev str alert now p)))
        \<and> suffix '' -> true'' (triggerResult.reason (fst (ev str alert now p)))
        \<and> set (triggerResult.reason (fst (ev str alert now p))) \<inter> set ''0123456789'' = {})"
proof -
  let ?r = "triggerResult.reason (fst (ev str alert now p))"
  let ?th = "str (alert.threshold alert)"
  have gte: "condition_type alert = ''price_gte'' \<longrightarrow>
      ?r = ''price_gte: '' @ str p @ '' >= '' @ ?th \<and> sublist (str p) ?r \<and> sublist ?th ?r"
  proof
    assume c: "condition_type alert = ''price_gte''"
    have eq: "?r = ''price_gte: '' @ str p @ '' >= '' @ ?th"
      using assms c by (elim disjE) (simp_all add: reason_price_gte reason_price_gte_cjs)
    show "?r = ''price_gte: '' @ str p @ '' >= '' @ ?th \<and> sublist (str p) ?r \<and> sublist ?th ?r"
      using sublist_second [of "str p" "''price_gte: ''" "'' >= '' @ ?th"]
        sublist_last [of ?th "''price_gte: ''" "str p" "'' >= ''"]
      by (simp only: eq)
  qed
  have lte: "condition_type alert = ''price_lte'' \<longrightarrow>
      ?r = ''price_lte: '' @ str p @ '' <= '' @ ?th \<and> sublist (str p) ?r \<and> sublist ?th ?r"
  proof
    assume c: "condition_type alert = ''price_lte''"
    have eq: "?r = ''price_lte: '' @ str p @ '' <= '' @ ?th"
      using assms c by (elim disjE) (simp_all add: reason_price_lte reason_price_lte_cjs)
    show "?r = ''price_lte: '' @ str p @ '' <= '' @ ?th \<and> sublist (str p) ?r \<and> sublist ?th ?r"
      using sublist_second [of "str p" "''price_lte: ''" "'' <= '' @ ?th"]
        sublist_last [of ?th "''price_lte: ''" "str p" "'' <= ''"]
      by (simp only: eq)
  qed
  have up: "condition_type alert = ''pct_change_up'' \<longrightarrow>
      (\<exists>base. basePrice (lastState' alert) = Some base
         \<and> ?r = ''pct_change_up: '' @ toFixed str 2 (dmul (ddiv (dsub p base) base) 100) @ ''% >= '' @ ?th @ ''%''
         \<and> sublist (toFixed str 2 (dmul (ddiv (dsub p base) base) 100)) ?r)
      \<and> sublist ?th ?r"
  proof
    assume c: "condition_type alert = ''pct_change_up''"
    have "\<exists>base. basePrice (lastState' alert) = Some base \<and>
        ?r = ''pct_change_up: '' @ toFixed str 2 (dmul (ddiv (dsub p base) base) 100) @ ''% >= '' @ ?th @ ''%''"
    proof (rule disjE [OF assms(1)])
      assume e: "ev = shouldTrigger"
      show ?thesis
        using reason_pct_change_up [OF c] assms(2) unfolding e by blast
    next
      assume e: "ev = shouldTrigger_cjs"
      show ?thesis
        using reason_pct_change_up_cjs [OF c] assms(2) unfolding e by blast
    qed
    then obtain base where
      b: "basePrice (lastState' alert) = Some base" and
      eq: "?r = ''pct_change_up: '' @ toFixed str 2 (dmul (ddiv (dsub p base) base) 100) @ ''% >= '' @ ?th @ ''%''"
      by blast
    have "sublist (toFixed str 2 (dmul (ddiv (dsub p base) base) 100)) ?r"
      using sublist_second [of "toFixed str 2 (dmul (ddiv (dsub p base) base) 100)" "''pct_change_up: ''"
          "''% >= '' @ ?th @ ''%''"]
      by (simp only: eq)
    moreover have "sublist ?th ?r"
      using sublist_fourth [of ?th "''pct_change_up: ''" "toFixed str 2 (dmul (ddiv (dsub p base) base) 100)"
          "''% >= ''" "''%''"]
      by (simp only: eq)
    ultimately show "(\<exists>base. basePrice (lastState' alert) = Some base
         \<and> ?r = ''pct_change_up: '' @ toFixed str 2 (dmul (ddiv (dsub p base) base) 100) @ ''% >= '' @ ?th @ ''%''
         \<and> sublist (toFixed str 2 (dmul (ddiv (dsub p base) base) 100)) ?r)
      \<and> sublist ?th ?r"
      using b eq by blast
  qed
  have down: "condition_type alert = ''pct_change_down'' \<longrightarrow>
      (\<exists>base. basePrice (lastState' alert) = Some base
         \<and> ?r = ''pct_change_down: '' @ toFixed str 2 (dmul (ddiv (dsub p base) base) 100) @ ''% <= -'' @ ?th @ ''%''
         \<and> sublist (toFixed str 2 (dmul (ddiv (dsub p base) base) 100)) ?r)
      \<and> sublist ?th ?r"
  proof
    assume c: "condition_type alert = ''pct_change_down''"
    have "\<exists>base. basePrice (lastState' alert) = Some base \<and>
        ?r = ''pct_change_down: '' @ toFixed str 2 (dmul (ddiv (dsub p base) base) 100) @ ''% <= -'' @ ?th @ ''%''"
    proof (rule disjE [OF assms(1)])
      assume e: "ev = shouldTrigger"
      show ?thesis
        using reason_pct_change_down [OF c] assms(2) unfolding e by blast
    next
      assume e: "ev = shouldTrigger_cjs"
      show ?thesis
        using reason_pct_change_down_cjs [OF c] assms(2) unfolding e by blast
    qed
    then obtain base where
      b: "basePrice (lastState' alert) = Some base" and
      eq: "?r = ''pct_change_down: '' @ toFixed str 2 (dmul (ddiv (dsub p base) base) 100) @ ''% <= -'' @ ?th @ ''%''"
      by blast
    have "sublist (toFixed str 2 (dmul (ddiv (dsub p base) base) 100)) ?r"
      using sublist_second [of "toFixed str 2 (dmul (ddiv (dsub p base) base) 100)" "''pct_change_down: ''"
          "''% <= -'' @ ?th @ ''%''"]
      by (simp only: eq)
    moreover have "sublist ?th ?r"
      using sublist_fourth [of ?th "''pct_change_down: ''" "toFixed str 2 (dmul (ddiv (dsub p base) base) 100)"
          "''% <= -''" "''%''"]
      by (simp only: eq)
    ultimately show "(\<exists>base. basePrice (lastState' alert) = Some base
         \<and> ?r = ''pct_change_down: '' @ toFixed str 2 (dmul (ddiv (dsub p base) base) 100) @ ''% <= -'' @ ?th @ ''%''
         \<and> sublist (toFixed str 2 (dmul (ddiv (dsub p base) base) 100)) ?r)
      \<and> sublist ?th ?r"
      using b eq by blast
  qed
  have cu: "condition_type alert = ''cross_up'' \<longrightarrow>
      prefix ''cross_up: '' ?r \<and> suffix '' -> true'' ?r \<and> set ?r \<inter> set ''0123456789'' = {}"
  proof
    assume c: "condition_type alert = ''cross_up''"
    have "?r = ''cross_up: undefined -> true'' \<or> ?r = ''cross_up: false -> true''"
    proof (rule disjE [OF assms(1)])
      assume e: "ev = shouldTrigger"
      show ?thesis
        using reason_cross_up [OF c] assms(2) unfolding e by blast
    next
      assume e: "ev = shouldTrigger_cjs"
      show ?thesis
        using reason_cross_up_cjs [OF c] assms(2) unfolding e by blast
    qed
    then show "prefix ''cross_up: '' ?r \<and> suffix '' -> true'' ?r
        \<and> set ?r \<inter> set ''0123456789'' = {}"
      using cross_reason_shape by metis
  qed
  have cd: "condition_type alert = ''cross_down'' \<longrightarrow>
      prefix ''cross_down: '' ?r \<and> suffix '' -> true'' ?r \<and> set ?r \<inter> set ''0123456789'' = {}"
  proof
    assume c: "condition_type alert = ''cross_down''"
    have "?r = ''cross_down: undefined -> true'' \<or> ?r = ''cross_down: false -> true''"
    proof (rule disjE [OF assms(1)])
      assume e: "ev = shouldTrigger"
      show ?thesis
        using reason_cross_down [OF c] assms(2) unfolding e by blast
    next
      assume e: "ev = shouldTrigger_cjs"
      show ?thesis
        using reason_cross_down_cjs [OF c] assms(2) unfolding e by blast
    qed
    then show "prefix ''cross_down: '' ?r \<and> suffix '' -> true'' ?r
        \<and> set ?r \<inter> set ''0123456789'' = {}"
      using cross_reason_shape by metis
  qed
  show ?thesis
    using gte lte up down cu cd by blast
qed


lemma decimalStr_5: "decimalStr 5 = ''5''"
  by (simp add: str_eval)

lemma decimalStr_1: "decimalStr 1 = ''1''"
  by (simp add: str_eval)

lemma toFixed_below_1005: "toFixed decimalStr 2 (1131529406376837 / 1125899906842624) = ''1.00''"
  by (simp add: str_eval)

theorem triggered_reason_embeds_comparison_witness:
  "\<not> triggered (fst (shouldTrigger decimalStr
       (scenarioRule ''price_gte'' 50000 300 None emptyState) 1000 49000))
   \<and> triggered (fst (shouldTrigger decimalStr
       (scenarioRule ''price_gte'' 50000 300 None emptyState) 1005 50100))
   \<and> triggerResult.reason (fst (shouldTrigger decimalStr
       (scenarioRule ''price_gte'' 50000 300 None emptyState) 1005 50100))
       = ''price_gte: 50100 >= 50000''
   \<and> sublist ''50100'' (triggerResult.reason (fst (shouldTrigger decimalStr
       (scenarioRule ''price_gte'' 50000 300 None emptyState) 1005 50100)))
   \<and> sublist ''50000'' (triggerResult.reason (fst (shouldTrigger decimalStr
       (scenarioRule ''price_gte'' 50000 300 None emptyState) 1005 50100)))
   \<and> triggered (fst (shouldTrigger decimalStr
       (scenarioRule ''pct_change_up'' 5 0 None
          (emptyState\<lparr>basePrice := Some 100, windowSec := Some 60\<rparr>)) 1005 110))
   \<and> triggerResult.reason (fst (shouldTrigger decimalStr
       (scenarioRule ''pct_change_up'' 5 0 None
          (emptyState\<lparr>basePrice := Some 100, windowSec := Some 60\<rparr>)) 1005 110))
       = ''pct_change_up: 10.00% >= 5%''
   \<and> triggered (fst (shouldTrigger_cjs decimalStr
       (scenarioRule ''pct_change_up'' 1 0 None (emptyState\<lparr>basePrice := Some 200000\<rparr>))
       1005 202010))
   \<and> triggerResult.reason (fst (shouldTrigger_cjs decimalStr
       (scenarioRule ''pct_change_up'' 1 0 None (emptyState\<lparr>basePrice := Some 200000\<rparr>))
       1005 202010))
       = ''pct_change_up: 1.00% >= 1%''
   \<and> triggered (fst (shouldTrigger decimalStr
       (scenarioRule ''cross_up'' 100 0 None (emptyState\<lparr>wasAbove := Some False\<rparr>)) 1005 110))
   \<and> prefix ''cross_up: '' (triggerResult.reason (fst (shouldTrigger decimalStr
       (scenarioRule ''cross_up'' 100 0 None (emptyState\<lparr>wasAbove := Some False\<rparr>)) 1005 110)))
   \<and> suffix '' -> true'' (triggerResult.reason (fst (shouldTrigger decimalStr
       (scenarioRule ''cross_up'' 100 0 None (emptyState\<lparr>wasAbove := Some False\<rparr>)) 1005 110)))
   \<and> set (triggerResult.reason (fst (shouldTrigger decimalStr
       (scenarioRule ''cross_up'' 100 0 None (emptyState\<lparr>wasAbove := Some False\<rparr>)) 1005 110)))
       \<inter> set ''0123456789'' = {}
   \<and> triggered (fst (shouldTrigger_cjs decimalStr
       (scenarioRule ''cross_down'' 100 0 None (emptyState\<lparr>wasBelow := Some False\<rparr>)) 1005 90))
   \<and> set (triggerResult.reason (fst (shouldTrigger_cjs decimalStr
       (scenarioRule ''cross_down'' 100 0 None (emptyState\<lparr>wasBelow := Some False\<rparr>)) 1005 90)))
       \<inter> set ''0123456789'' = {}"
proof -
  let ?gte = "scenarioRule ''price_gte'' 50000 300 None emptyState"
  let ?pct = "scenarioRule ''pct_change_up'' 5 0 None
    (emptyState\<lparr>basePrice := Some 100, windowSec := Some 60\<rparr>)"
  let ?tie = "scenarioRule ''pct_change_up'' 1 0 None (emptyState\<lparr>basePrice := Some 200000\<rparr>)"
  let ?up = "scenarioRule ''cross_up'' 100 0 None (emptyState\<lparr>wasAbove := Some False\<rparr>)"
  let ?down = "scenarioRule ''cross_down'' 100 0 None (emptyState\<lparr>wasBelow := Some False\<rparr>)"
  have n: "\<not> triggered (fst (shouldTrigger decimalStr ?gte 1000 49000))"
    by (simp add: rule_eval)
  have t1: "triggered (fst (shouldTrigger decimalStr ?gte 1005 50100))"
    by (simp add: rule_eval)
  have t2: "triggered (fst (shouldTrigger decimalStr ?pct 1005 110))"
    by (simp add: rule_eval change_110_100)
  have t3: "triggered (fst (shouldTrigger_cjs decimalStr ?tie 1005 202010))"
    by (simp add: rule_eval change_202010_200000)
  have t4: "triggered (fst (shouldTrigger decimalStr ?up 1005 110))"
    by (simp add: rule_eval)
  have t5: "triggered (fst (shouldTrigger_cjs decimalStr ?down 1005 90))"
    by (simp add: rule_eval)
  have c1: "condition_type ?gte = ''price_gte''" "alert.threshold ?gte = 50000"
    by (simp_all add: scenarioRule_def)
  have c2: "condition_type ?pct = ''pct_change_up''" "alert.threshold ?pct = 5"
    "basePrice (lastState' ?pct) = Some 100"
    by (simp_all add: scenarioRule_def emptyState_def)
  have c3: "condition_type ?tie = ''pct_change_up''" "alert.threshold ?tie = 1"
    "basePrice (lastState' ?tie) = Some 200000"
    by (simp_all add: scenarioRule_def emptyState_def)
  have c4: "condition_type ?up = ''cross_up''"
    by (simp add: scenarioRule_def)
  have c5: "condition_type ?down = ''cross_down''"
    by (simp add: scenarioRule_def)
  have g: "triggerResult.reason (fst (shouldTrigger decimalStr ?gte 1005 50100))
        = ''price_gte: 50100 >= 50000''
      \<and> sublist ''50100'' (triggerResult.reason (fst (shouldTrigger decimalStr ?gte 1005 50100)))
      \<and> sublist ''50000'' (triggerResult.reason (fst (shouldTrigger decimalStr ?gte 1005 50100)))"
    using triggered_reason_embeds_comparison [of shouldTrigger, OF _ t1] c1
    by (simp add: decimalStr_50100 decimalStr_50000 sublist_Cons_right)
  have p: "triggerResult.reason (fst (shouldTrigger decimalStr ?pct 1005 110))
        = ''pct_change_up: 10.00% >= 5%''"
    using triggered_reason_embeds_comparison [of shouldTrigger, OF _ t2] c2
    by (simp add: change_110_100 toFixed_10 decimalStr_5)
  have q: "triggerResult.reason (fst (shouldTrigger_cjs decimalStr ?tie 1005 202010))
        = ''pct_change_up: 1.00% >= 1%''"
    using triggered_reason_embeds_comparison [of shouldTrigger_cjs, OF _ t3] c3
    by (simp add: change_202010_200000 toFixed_below_1005 decimalStr_1)
  have u: "prefix ''cross_up: '' (triggerResult.reason (fst (shouldTrigger decimalStr ?up 1005 110)))
      \<and> suffix '' -> true'' (triggerResult.reason (fst (shouldTrigger decimalStr ?up 1005 110)))
      \<and> set (triggerResult.reason (fst (shouldTrigger decimalStr ?up 1005 110)))
          \<inter> set ''0123456789'' = {}"
    using triggered_reason_embeds_comparison [of shouldTrigger, OF _ t4] c4
    by simp
  have d: "set (triggerResult.reason (fst (shouldTrigger_cjs decimalStr ?down 1005 90)))
      \<inter> set ''0123456789'' = {}"
    using triggered_reason_embeds_comparison [of shouldTrigger_cjs, OF _ t5] c5
    by simp
  from n t1 g t2 p t3 q t4 u t5 d show ?thesis
    by blast
qed

section \<open>The group manager\<close>

lemma withState_fields [simp]:
  "id' (withState a) = id' a"
  "alert.symbol (withState a) = alert.symbol a"
  "poll_interval_sec (withState a) = poll_interval_sec a"
  "is_enabled (withState a) = is_enabled a"
  by (simp_all add: withState_def alert.defs)

lemma symbolIndexAdd_keeps [simp]:
  "groups (symbolIndexAdd s i e) = groups e"
  "alertsById (symbolIndexAdd s i e) = alertsById e"
  by (simp_all add: symbolIndexAdd_def Let_def)

lemma symbolIndexRemove_keeps [simp]:
  "groups (symbolIndexRemove s i e) = groups e"
  "alertsById (symbolIndexRemove s i e) = alertsById e"
  by (simp_all add: symbolIndexRemove_def Let_def split: option.splits)

lemma groupAdd_keeps [simp]: "alertsById (groupAdd s n i now e) = alertsById e"
  by (simp add: groupAdd_def Let_def)

lemma groupRemove_keeps [simp]: "alertsById (groupRemove s n i e) = alertsById e"
  by (simp add: groupRemove_def Let_def split: option.splits)

lemma groupsOf_cong: "groups e' = groups e \<Longrightarrow> groupsOf e' i = groupsOf e i"
  by (simp add: groupsOf_def)

lemma groupsOf_alertsById_update [simp]: "groupsOf (e\<lparr>alertsById := m\<rparr>) i = groupsOf e i"
  by (simp add: groupsOf_def)

lemma groupsOf_symbolIndex [simp]:
  "groupsOf (symbolIndexAdd s j e) i = groupsOf e i"
  "groupsOf (symbolIndexRemove s j e) i = groupsOf e i"
  by (simp_all add: groupsOf_def)

lemma groupsOf_groupAdd:
  "groupsOf (groupAdd s n i now e) j =
     (if j = i then insert (makeGroupKey s n) (groupsOf e j) else groupsOf e j)"
  by (auto simp add: groupsOf_def groupAdd_def Let_def setAdd_def split: option.splits if_splits)

lemma removeAll_Nil_iff: "removeAll x xs = [] \<longleftrightarrow> set xs \<subseteq> {x}"
  by (induction xs) auto

lemma groupsOf_groupRemove:
  "groupsOf (groupRemove s n i e) j =
     (if j = i then groupsOf e j - {makeGroupKey s n} else groupsOf e j)"
  by (auto simp add: groupsOf_def groupRemove_def Let_def setDelete_def removeAll_Nil_iff
      split: option.splits if_splits)

lemma noEmptyGroup_groupAdd: "noEmptyGroup e \<Longrightarrow> noEmptyGroup (groupAdd s n i now e)"
  by (auto simp add: noEmptyGroup_def groupAdd_def Let_def setAdd_def split: option.splits if_splits)

lemma noEmptyGroup_groupRemove: "noEmptyGroup e \<Longrightarrow> noEmptyGroup (groupRemove s n i e)"
  by (auto simp add: noEmptyGroup_def groupRemove_def Let_def split: option.splits if_splits)

lemma noEmptyGroup_cong: "groups e' = groups e \<Longrightarrow> noEmptyGroup e' = noEmptyGroup e"
  by (simp add: noEmptyGroup_def)

lemma applyChange_alertsById:
  "alertsById (applyChange action alert now e) =
     (if action \<noteq> Delete \<and> is_enabled alert
      then (alertsById e)(id' alert \<mapsto> withState alert)
      else (alertsById e)(id' alert := None))"
  by (simp add: applyChange_def Let_def split: option.splits)

lemma applyChange_groupsOf_other:
  "j \<noteq> id' alert \<Longrightarrow> groupsOf (applyChange action alert now e) j = groupsOf e j"
  by (simp add: applyChange_def Let_def groupsOf_groupAdd groupsOf_groupRemove split: option.splits)

lemma applyChange_groupsOf_self:
  assumes "consistent e"
  shows "groupsOf (applyChange action alert now e) (id' alert) =
     (if action \<noteq> Delete \<and> is_enabled alert
      then {makeGroupKey (alert.symbol alert) (poll_interval_sec alert)} else {})"
proof (cases "alertsById e (id' alert)")
  case None
  with assms have "groupsOf e (id' alert) = {}"
    by (simp add: consistent_def)
  with None show ?thesis
    by (simp add: applyChange_def Let_def groupsOf_groupAdd groupsOf_groupRemove)
next
  case (Some old)
  with assms have "groupsOf e (id' alert) = {makeGroupKey (alert.symbol old) (poll_interval_sec old)}"
    by (simp add: consistent_def)
  with Some show ?thesis
    by (auto simp add: applyChange_def Let_def groupsOf_groupAdd groupsOf_groupRemove makeGroupKey_def)
qed

lemma applyChange_noEmptyGroup:
  "noEmptyGroup e \<Longrightarrow> noEmptyGroup (applyChange action alert now e)"
  by (auto simp add: applyChange_def Let_def noEmptyGroup_groupAdd noEmptyGroup_groupRemove
      noEmptyGroup_cong [of "symbolIndexAdd s i e'" e' for s i e']
      noEmptyGroup_cong [of "symbolIndexRemove s i e'" e' for s i e']
      noEmptyGroup_cong [of "e'\<lparr>alertsById := m\<rparr>" e' for m e']
      split: option.splits)

lemma consistent_noEmptyGroup: "consistent e \<Longrightarrow> noEmptyGroup e"
  by (simp add: consistent_def)

lemma consistent_applyChange:
  assumes "consistent e"
  shows "consistent (applyChange action alert now e)"
proof -
  let ?e = "applyChange action alert now e"
  have A: "\<And>i a. alertsById ?e i = Some a \<Longrightarrow>
      id' a = i \<and> is_enabled a
      \<and> groupsOf ?e i = {makeGroupKey (alert.symbol a) (poll_interval_sec a)}"
  proof -
    fix i a assume h: "alertsById ?e i = Some a"
    show "id' a = i \<and> is_enabled a
      \<and> groupsOf ?e i = {makeGroupKey (alert.symbol a) (poll_interval_sec a)}"
    proof (cases "i = id' alert")
      case True
      with h have en: "action \<noteq> Delete \<and> is_enabled alert" and a: "a = withState alert"
        by (auto simp add: applyChange_alertsById split: if_splits)
      with True applyChange_groupsOf_self [OF assms, of action alert now] show ?thesis
        by simp
    next
      case False
      with h have "alertsById e i = Some a"
        by (simp add: applyChange_alertsById split: if_splits)
      with assms False show ?thesis
        by (simp add: applyChange_groupsOf_other consistent_def)
    qed
  qed
  have B: "\<And>i. alertsById ?e i = None \<Longrightarrow> groupsOf ?e i = {}"
  proof -
    fix i assume h: "alertsById ?e i = None"
    show "groupsOf ?e i = {}"
    proof (cases "i = id' alert")
      case True
      with h have "\<not> (action \<noteq> Delete \<and> is_enabled alert)"
        by (auto simp add: applyChange_alertsById split: if_splits)
      with True applyChange_groupsOf_self [OF assms, of action alert now] show ?thesis
        by simp
    next
      case False
      with h have "alertsById e i = None"
        by (simp add: applyChange_alertsById split: if_splits)
      with assms False show ?thesis
        by (simp add: applyChange_groupsOf_other consistent_def)
    qed
  qed
  have C: "noEmptyGroup ?e"
    using assms by (simp add: applyChange_noEmptyGroup consistent_noEmptyGroup)
  from A B C show ?thesis
    unfolding consistent_def by blast
qed

lemma consistent_applyChanges:
  "consistent e \<Longrightarrow> consistent (applyChanges changes e)"
  unfolding applyChanges_def
  by (induction changes arbitrary: e) (auto simp add: consistent_applyChange)

lemma consistent_emptyEngine: "consistent emptyEngine"
  by (simp add: consistent_def noEmptyGroup_def emptyEngine_def groupsOf_def)

lemma indexAlert_applyChange:
  assumes "alertsById e (id' alert) = None" and "is_enabled alert"
  shows "indexAlert now e alert = applyChange Upsert alert now e"
  using assms by (simp add: indexAlert_def applyChange_def Let_def)

lemma consistent_rebuild_loop:
  assumes "consistent e" and "distinct (map id' xs)" and "\<forall>a \<in> set xs. is_enabled a"
    and "\<forall>a \<in> set xs. alertsById e (id' a) = None"
  shows "consistent (foldl (indexAlert now) e xs)"
  using assms
proof (induction xs arbitrary: e)
  case Nil
  then show ?case by simp
next
  case (Cons x xs)
  have step: "indexAlert now e x = applyChange Upsert x now e"
    using Cons.prems by (intro indexAlert_applyChange) auto
  have c: "consistent (applyChange Upsert x now e)"
    using Cons.prems(1) by (rule consistent_applyChange)
  have fresh: "\<forall>a \<in> set xs. alertsById (applyChange Upsert x now e) (id' a) = None"
  proof
    fix a assume a: "a \<in> set xs"
    with Cons.prems(2) have "id' a \<noteq> id' x"
      by (metis distinct.simps(2) image_eqI list.simps(9) set_map)
    with a Cons.prems(4) show "alertsById (applyChange Upsert x now e) (id' a) = None"
      by (simp add: applyChange_alertsById)
  qed
  have "consistent (foldl (indexAlert now) (applyChange Upsert x now e) xs)"
    using Cons.prems by (intro Cons.IH c fresh) auto
  then show ?case
    by (simp add: step)
qed

lemma consistent_rebuildFromDb:
  assumes "distinct (map id' (alerts d))"
  shows "consistent (rebuildFromDb d now)"
  unfolding rebuildFromDb_def
proof (rule consistent_rebuild_loop [OF consistent_emptyEngine])
  show "distinct (map id' (getEnabledAlerts d))"
    using assms by (simp add: getEnabledAlerts_def distinct_map_filter)
  show "\<forall>a \<in> set (getEnabledAlerts d). is_enabled a"
    by (simp add: getEnabledAlerts_def)
  show "\<forall>a \<in> set (getEnabledAlerts d). alertsById emptyEngine (id' a) = None"
    by (simp add: emptyEngine_def)
qed

text \<open>
  C7. Let the rows of the store have distinct ids (\<^verbatim>\<open>id TEXT PRIMARY KEY\<close>). After
  \<^verbatim>\<open>rebuildFromDb\<close> and any sequence of calls of \<^verbatim>\<open>applyChange\<close>, with any action and any rule,
  the state is consistent: every rule of the by-id index is enabled and is a member of exactly
  one group, the one keyed by its symbol and interval; every id outside the index, which is
  where a disabled or deleted rule is, is a member of no group; no group has an empty rule-id
  set. From such a state, applying an enabled rule \<open>a\<close> as disabled leaves its id in no group,
  applying it as enabled again puts it in exactly the group of its symbol and interval, and
  deleting it leaves its id in no group.
\<close>

theorem enabled_rule_in_exactly_its_group:
  assumes "distinct (map id' (alerts d))"
  shows
    "consistent (applyChanges changes (rebuildFromDb d now))
     \<and> (is_enabled a \<longrightarrow>
          groupsOf (applyChange Update (a\<lparr>is_enabled := False\<rparr>) t1
                      (applyChanges changes (rebuildFromDb d now))) (id' a) = {}
        \<and> groupsOf (applyChange Update a t2
                      (applyChange Update (a\<lparr>is_enabled := False\<rparr>) t1
                         (applyChanges changes (rebuildFromDb d now)))) (id' a)
            = {makeGroupKey (alert.symbol a) (poll_interval_sec a)})
     \<and> groupsOf (applyChange Delete a t1 (applyChanges changes (rebuildFromDb d now))) (id' a) = {}"
proof -
  let ?e = "applyChanges changes (rebuildFromDb d now)"
  let ?off = "applyChange Update (a\<lparr>is_enabled := False\<rparr>) t1 ?e"
  have c: "consistent ?e"
    using assms by (simp add: consistent_applyChanges consistent_rebuildFromDb)
  have off: "groupsOf ?off (id' a) = {}"
    using applyChange_groupsOf_self [OF c, of Update "a\<lparr>is_enabled := False\<rparr>" t1] by simp
  have "consistent ?off"
    using c by (rule consistent_applyChange)
  then have on: "is_enabled a \<longrightarrow> groupsOf (applyChange Update a t2 ?off) (id' a)
      = {makeGroupKey (alert.symbol a) (poll_interval_sec a)}"
    using applyChange_groupsOf_self [of ?off Update a t2] by simp
  have del: "groupsOf (applyChange Delete a t1 ?e) (id' a) = {}"
    using applyChange_groupsOf_self [OF c, of Delete a t1] by simp
  from c off on del show ?thesis
    by blast
qed

theorem enabled_rule_in_exactly_its_group_witness:
  "distinct (map id' (alerts (store (scenarioWorld (scenarioRule ''price_gte'' 50000 300 None emptyState)))))
   \<and> consistent
        (applyChanges
           [(Update, (alert.truncate (scenarioRule ''price_gte'' 50000 300 None emptyState))
                       \<lparr>poll_interval_sec := 10\<rparr>, 1010),
            (Upsert, (alert.truncate (scenarioRule ''cross_up'' 100 300 None emptyState))
                       \<lparr>id' := ''a2''\<rparr>, 1020)]
           (rebuildFromDb (store (scenarioWorld (scenarioRule ''price_gte'' 50000 300 None emptyState))) 1000))
   \<and> groupsOf
        (applyChange Update (alert.truncate (scenarioRule ''price_gte'' 50000 300 None emptyState)) 1040
           (applyChange Update
              ((alert.truncate (scenarioRule ''price_gte'' 50000 300 None emptyState))\<lparr>is_enabled := False\<rparr>) 1030
              (applyChanges
                 [(Update, (alert.truncate (scenarioRule ''price_gte'' 50000 300 None emptyState))
                             \<lparr>poll_interval_sec := 10\<rparr>, 1010),
                  (Upsert, (alert.truncate (scenarioRule ''cross_up'' 100 300 None emptyState))
                             \<lparr>id' := ''a2''\<rparr>, 1020)]
                 (rebuildFromDb (store (scenarioWorld (scenarioRule ''price_gte'' 50000 300 None emptyState))) 1000))))
        ''a1''
       = {(''BTCUSDT'', 5)}"
  using enabled_rule_in_exactly_its_group
    [of "store (scenarioWorld (scenarioRule ''price_gte'' 50000 300 None emptyState))"
        "[(Update, (alert.truncate (scenarioRule ''price_gte'' 50000 300 None emptyState))
                       \<lparr>poll_interval_sec := 10\<rparr>, 1010),
          (Upsert, (alert.truncate (scenarioRule ''cross_up'' 100 300 None emptyState))
                       \<lparr>id' := ''a2''\<rparr>, 1020)]"
        1000
        "alert.truncate (scenarioRule ''price_gte'' 50000 300 None emptyState)" 1030 1040]
  by (simp add: scenarioWorld_def scenarioRule_def alert.defs makeGroupKey_def)

text \<open>
  C10. \<^verbatim>\<open>applyChange("delete", rule)\<close> on a rule whose id is not in the by-id index returns the
  state as it was: the by-id index, the by-symbol index and the group map are all unchanged.
  For any rule and any state, deleting a second time gives the state that the first delete
  gave.
\<close>

theorem delete_unknown_is_noop_and_delete_is_idempotent:
  "(alertsById e (id' alert) = None \<longrightarrow> applyChange Delete alert now e = e)
   \<and> applyChange Delete alert now' (applyChange Delete alert now e) = applyChange Delete alert now e"
proof -
  have noop: "\<And>e now. alertsById e (id' alert) = None \<Longrightarrow> applyChange Delete alert now e = e"
    by (simp add: applyChange_def fun_upd_idem)
  have "alertsById (applyChange Delete alert now e) (id' alert) = None"
    by (simp add: applyChange_alertsById)
  then have "applyChange Delete alert now' (applyChange Delete alert now e) = applyChange Delete alert now e"
    by (rule noop)
  with noop show ?thesis
    by blast
qed

theorem delete_unknown_is_noop_and_delete_is_idempotent_witness:
  "alertsById (engine (scenarioWorld (scenarioRule ''price_gte'' 50000 300 None emptyState)))
       (id' ((alert.truncate (scenarioRule ''cross_up'' 100 300 None emptyState))\<lparr>id' := ''a2''\<rparr>)) = None
   \<and> applyChange Delete ((alert.truncate (scenarioRule ''cross_up'' 100 300 None emptyState))\<lparr>id' := ''a2''\<rparr>) 1010
         (engine (scenarioWorld (scenarioRule ''price_gte'' 50000 300 None emptyState)))
       = engine (scenarioWorld (scenarioRule ''price_gte'' 50000 300 None emptyState))
   \<and> applyChange Delete (alert.truncate (scenarioRule ''price_gte'' 50000 300 None emptyState)) 1020
         (applyChange Delete (alert.truncate (scenarioRule ''price_gte'' 50000 300 None emptyState)) 1010
            (engine (scenarioWorld (scenarioRule ''price_gte'' 50000 300 None emptyState))))
       = applyChange Delete (alert.truncate (scenarioRule ''price_gte'' 50000 300 None emptyState)) 1010
            (engine (scenarioWorld (scenarioRule ''price_gte'' 50000 300 None emptyState)))
   \<and> alertsById (applyChange Delete (alert.truncate (scenarioRule ''price_gte'' 50000 300 None emptyState)) 1010
            (engine (scenarioWorld (scenarioRule ''price_gte'' 50000 300 None emptyState)))) ''a1'' = None
   \<and> groups (applyChange Delete (alert.truncate (scenarioRule ''price_gte'' 50000 300 None emptyState)) 1010
            (engine (scenarioWorld (scenarioRule ''price_gte'' 50000 300 None emptyState)))) (''BTCUSDT'', 5) = None"
  using delete_unknown_is_noop_and_delete_is_idempotent
    [of "engine (scenarioWorld (scenarioRule ''price_gte'' 50000 300 None emptyState))"
        "(alert.truncate (scenarioRule ''cross_up'' 100 300 None emptyState))\<lparr>id' := ''a2''\<rparr>" 1010 1020]
    delete_unknown_is_noop_and_delete_is_idempotent
    [of "engine (scenarioWorld (scenarioRule ''price_gte'' 50000 300 None emptyState))"
        "alert.truncate (scenarioRule ''price_gte'' 50000 300 None emptyState)" 1010 1020]
  by (simp add: scenarioWorld_def scenarioRule_def alert.defs makeGroupKey_def applyChange_def
      groupRemove_def symbolIndexRemove_def setDelete_def Let_def)

section \<open>Delivery of one task\<close>

lemma retryDelay_schedule:
  "retryDelay 1 = 1000" "retryDelay 2 = 3000" "3 \<le> n \<Longrightarrow> retryDelay n = 10000"
  by (simp_all add: retryDelay_def RETRY_DELAYS_def nth_Cons split: nat.splits)

lemma retryDelay_Suc: "retryDelay (Suc 0) = 1000" "retryDelay (Suc (Suc 0)) = 3000"
  by (simp_all add: retryDelay_def RETRY_DELAYS_def)

lemma attemptLoop_exhausted:
  "\<not> attempts < MAX_RETRIES \<Longrightarrow>
     attemptLoop sink task attempts lastError (w, d)
       = (w, updateAlertEventStatus (eventId task) ''failed'' lastError d)"
  by (simp add: attemptLoop.simps)

lemma attemptLoop_sent:
  "attempts < MAX_RETRIES \<Longrightarrow> sink (Suc attempts) = None \<Longrightarrow>
     attemptLoop sink task attempts lastError (w, d)
       = (w\<lparr>effects := effects w @ [Send task]\<rparr>,
          updateAlertEventStatus (eventId task) ''success'' None d)"
  by (subst attemptLoop.simps) (simp add: Let_def)

lemma attemptLoop_failed:
  "attempts < MAX_RETRIES \<Longrightarrow> sink (Suc attempts) = Some msg \<Longrightarrow>
     attemptLoop sink task attempts lastError (w, d)
       = attemptLoop sink task (Suc attempts) (Some msg)
           (if Suc attempts < MAX_RETRIES
            then sleep (retryDelay (Suc attempts)) (w\<lparr>effects := effects w @ [Send task]\<rparr>)
            else w\<lparr>effects := effects w @ [Send task]\<rparr>, d)"
  by (subst attemptLoop.simps) (simp add: Let_def)

lemma sendCount_append [simp]: "sendCount (xs @ ys) = sendCount xs + sendCount ys"
  by (induction xs rule: sendCount.induct) auto

lemma sendCount_rateLimitPause [simp]: "sendCount (rateLimitPause w) = 0"
  by (simp add: rateLimitPause_def)

lemma processTask_first:
  assumes "sink 1 = None"
  shows "performed w (processTask sink task (w, d)) = rateLimitPause w @ [Send task]"
    and "snd (processTask sink task (w, d)) = updateAlertEventStatus (eventId task) ''success'' None d"
  using assms
  by (simp_all add: processTask_def Let_def attemptLoop_sent MAX_RETRIES_def performed_def
      rateLimitPause_def sleep_def)

lemma processTask_second:
  assumes "sink 1 = Some m1" "sink 2 = None"
  shows "performed w (processTask sink task (w, d))
           = rateLimitPause w @ [Send task, Sleep 1000, Send task]"
    and "snd (processTask sink task (w, d)) = updateAlertEventStatus (eventId task) ''success'' None d"
  using assms
  by (simp_all add: processTask_def Let_def attemptLoop_sent attemptLoop_failed MAX_RETRIES_def
      performed_def rateLimitPause_def sleep_def retryDelay_Suc numeral_2_eq_2)

lemma processTask_third:
  assumes "sink 1 = Some m1" "sink 2 = Some m2" "sink 3 = None"
  shows "performed w (processTask sink task (w, d))
           = rateLimitPause w @ [Send task, Sleep 1000, Send task, Sleep 3000, Send task]"
    and "snd (processTask sink task (w, d)) = updateAlertEventStatus (eventId task) ''success'' None d"
  using assms
  by (simp_all add: processTask_def Let_def attemptLoop_sent attemptLoop_failed MAX_RETRIES_def
      performed_def rateLimitPause_def sleep_def retryDelay_Suc numeral_2_eq_2 numeral_3_eq_3)

lemma processTask_none:
  assumes "sink 1 = Some m1" "sink 2 = Some m2" "sink 3 = Some m3"
  shows "performed w (processTask sink task (w, d))
           = rateLimitPause w @ [Send task, Sleep 1000, Send task, Sleep 3000, Send task]"
    and "snd (processTask sink task (w, d))
           = updateAlertEventStatus (eventId task) ''failed'' (Some m3) d"
  using assms
  by (simp_all add: processTask_def Let_def attemptLoop_exhausted attemptLoop_failed MAX_RETRIES_def
      performed_def rateLimitPause_def sleep_def retryDelay_Suc numeral_2_eq_2 numeral_3_eq_3)

lemma processTask_sendCount: "sendCount (performed w (processTask sink task (w, d))) \<le> 3"
proof (cases "sink 1")
  case None
  then show ?thesis by (simp add: processTask_first)
next
  case s1: (Some m1)
  show ?thesis
  proof (cases "sink 2")
    case None
    with s1 show ?thesis by (simp add: processTask_second)
  next
    case s2: (Some m2)
    show ?thesis
    proof (cases "sink 3")
      case None
      with s1 s2 show ?thesis by (simp add: processTask_third)
    next
      case (Some m3)
      with s1 s2 show ?thesis by (simp add: processTask_none)
    qed
  qed
qed

lemma updateAlertEventStatus_event:
  "alert_events d i = Some ev \<Longrightarrow>
     alert_events (updateAlertEventStatus i status msg d) i
       = Some (ev\<lparr>notify_status := status, error_message := msg\<rparr>)"
  by (simp add: updateAlertEventStatus_def)

text \<open>
  C6. Let the event that a task refers to be in the store. A call of \<^verbatim>\<open>processTask\<close> calls the
  sink at most 3 times. The delay after a failed attempt \<open>n\<close> is 1000 ms for the first, 3000 ms
  for the second and 10000 ms from the third on, the last entry of the schedule. If the first
  attempt succeeds, or the second, or the third, the call has made that many attempts, with
  pauses of 1000 ms and 3000 ms between them, and the event then has status \<^verbatim>\<open>success\<close> and no
  error message. If all 3 attempts fail, the event has status \<^verbatim>\<open>failed\<close> and the error message
  of the third attempt. Before its first attempt the call pauses only for the rate limit.
\<close>

theorem at_most_three_attempts_then_final_status:
  assumes "alert_events d (eventId task) = Some ev"
  shows
    "sendCount (performed w (processTask sink task (w, d))) \<le> 3
     \<and> retryDelay 1 = 1000 \<and> retryDelay 2 = 3000 \<and> (3 \<le> n \<longrightarrow> retryDelay n = 10000)
     \<and> (sink 1 = None \<longrightarrow>
          performed w (processTask sink task (w, d)) = rateLimitPause w @ [Send task]
          \<and> alert_events (snd (processTask sink task (w, d))) (eventId task)
              = Some (ev\<lparr>notify_status := ''success'', error_message := None\<rparr>))
     \<and> (sink 1 = Some m1 \<and> sink 2 = None \<longrightarrow>
          performed w (processTask sink task (w, d))
            = rateLimitPause w @ [Send task, Sleep 1000, Send task]
          \<and> alert_events (snd (processTask sink task (w, d))) (eventId task)
              = Some (ev\<lparr>notify_status := ''success'', error_message := None\<rparr>))
     \<and> (sink 1 = Some m1 \<and> sink 2 = Some m2 \<and> sink 3 = None \<longrightarrow>
          performed w (processTask sink task (w, d))
            = rateLimitPause w @ [Send task, Sleep 1000, Send task, Sleep 3000, Send task]
          \<and> alert_events (snd (processTask sink task (w, d))) (eventId task)
              = Some (ev\<lparr>notify_status := ''success'', error_message := None\<rparr>))
     \<and> (sink 1 = Some m1 \<and> sink 2 = Some m2 \<and> sink 3 = Some m3 \<longrightarrow>
          performed w (processTask sink task (w, d))
            = rateLimitPause w @ [Send task, Sleep 1000, Send task, Sleep 3000, Send task]
          \<and> alert_events (snd (processTask sink task (w, d))) (eventId task)
              = Some (ev\<lparr>notify_status := ''failed'', error_message := Some m3\<rparr>))"
proof -
  have delays: "retryDelay 1 = 1000 \<and> retryDelay 2 = 3000 \<and> (3 \<le> n \<longrightarrow> retryDelay n = 10000)"
    by (simp add: retryDelay_schedule retryDelay_Suc)
  have first: "sink 1 = None \<longrightarrow>
          performed w (processTask sink task (w, d)) = rateLimitPause w @ [Send task]
          \<and> alert_events (snd (processTask sink task (w, d))) (eventId task)
              = Some (ev\<lparr>notify_status := ''success'', error_message := None\<rparr>)"
    using assms by (simp add: processTask_first updateAlertEventStatus_event)
  have second: "sink 1 = Some m1 \<and> sink 2 = None \<longrightarrow>
          performed w (processTask sink task (w, d))
            = rateLimitPause w @ [Send task, Sleep 1000, Send task]
          \<and> alert_events (snd (processTask sink task (w, d))) (eventId task)
              = Some (ev\<lparr>notify_status := ''success'', error_message := None\<rparr>)"
    using assms by (simp add: processTask_second updateAlertEventStatus_event)
  have third: "sink 1 = Some m1 \<and> sink 2 = Some m2 \<and> sink 3 = None \<longrightarrow>
          performed w (processTask sink task (w, d))
            = rateLimitPause w @ [Send task, Sleep 1000, Send task, Sleep 3000, Send task]
          \<and> alert_events (snd (processTask sink task (w, d))) (eventId task)
              = Some (ev\<lparr>notify_status := ''success'', error_message := None\<rparr>)"
    using assms by (simp add: processTask_third updateAlertEventStatus_event)
  have none: "sink 1 = Some m1 \<and> sink 2 = Some m2 \<and> sink 3 = Some m3 \<longrightarrow>
          performed w (processTask sink task (w, d))
            = rateLimitPause w @ [Send task, Sleep 1000, Send task, Sleep 3000, Send task]
          \<and> alert_events (snd (processTask sink task (w, d))) (eventId task)
              = Some (ev\<lparr>notify_status := ''failed'', error_message := Some m3\<rparr>)"
    using assms by (simp add: processTask_none updateAlertEventStatus_event)
  from processTask_sendCount [of w sink task d] delays first second third none show ?thesis
    by blast
qed

theorem at_most_three_attempts_then_final_status_witness:
  "alert_events scenarioStore (eventId scenarioTask) = Some scenarioEvent
   \<and> performed \<lparr>lastSendTime = 100000, clock = 100200, effects = []\<rparr>
        (processTask (\<lambda>n. if n < 3 then Some ''timeout of 10000ms exceeded'' else None) scenarioTask
           (\<lparr>lastSendTime = 100000, clock = 100200, effects = []\<rparr>, scenarioStore))
       = [Sleep 300, Send scenarioTask, Sleep 1000, Send scenarioTask, Sleep 3000, Send scenarioTask]
   \<and> alert_events (snd
        (processTask (\<lambda>n. if n < 3 then Some ''timeout of 10000ms exceeded'' else None) scenarioTask
           (\<lparr>lastSendTime = 100000, clock = 100200, effects = []\<rparr>, scenarioStore))) 1
       = Some (scenarioEvent\<lparr>notify_status := ''success'', error_message := None\<rparr>)
   \<and> alert_events (snd
        (processTask (\<lambda>n. if n < 3 then Some ''timeout of 10000ms exceeded''
                            else Some ''Telegram API error: chat not found'') scenarioTask
           (\<lparr>lastSendTime = 100000, clock = 100200, effects = []\<rparr>, scenarioStore))) 1
       = Some (scenarioEvent\<lparr>notify_status := ''failed'',
                              error_message := Some ''Telegram API error: chat not found''\<rparr>)
   \<and> sendCount (performed \<lparr>lastSendTime = 100000, clock = 100200, effects = []\<rparr>
        (processTask (\<lambda>n. if n < 3 then Some ''timeout of 10000ms exceeded''
                            else Some ''Telegram API error: chat not found'') scenarioTask
           (\<lparr>lastSendTime = 100000, clock = 100200, effects = []\<rparr>, scenarioStore))) \<le> 3"
  using
    at_most_three_attempts_then_final_status
      [of scenarioStore scenarioTask scenarioEvent
          "\<lparr>lastSendTime = 100000, clock = 100200, effects = []\<rparr>"
          "\<lambda>n. if n < 3 then Some ''timeout of 10000ms exceeded'' else None" 3
          "''timeout of 10000ms exceeded''" "''timeout of 10000ms exceeded''"]
    at_most_three_attempts_then_final_status
      [of scenarioStore scenarioTask scenarioEvent
          "\<lparr>lastSendTime = 100000, clock = 100200, effects = []\<rparr>"
          "\<lambda>n. if n < 3 then Some ''timeout of 10000ms exceeded''
                else Some ''Telegram API error: chat not found''" 3
          "''timeout of 10000ms exceeded''" "''timeout of 10000ms exceeded''"
          "''Telegram API error: chat not found''"]
  by (simp add: scenarioStore_def scenarioTask_def rateLimitPause_def RATE_LIMIT_DELAY_def)

section \<open>The delivery queue\<close>

lemma singleConsumer_idle: "singleConsumer idle"
  by (simp add: singleConsumer_def idle_def)

lemma pushToNotifyQueue_while_draining:
  "isProcessing (notifyQueue q) \<Longrightarrow>
     pushToNotifyQueue task q
       = q\<lparr>notifyQueue := (notifyQueue q)\<lparr>tasks := tasks (notifyQueue q) @ [task]\<rparr>,
           pushed := pushed q @ [task]\<rparr>"
  by (simp add: pushToNotifyQueue_def processQueue_def)

lemma singleConsumer_push:
  assumes "singleConsumer q"
  shows "singleConsumer (pushToNotifyQueue task q)"
proof (cases "isProcessing (notifyQueue q)")
  case True
  with assms show ?thesis
    by (simp add: pushToNotifyQueue_while_draining singleConsumer_def)
next
  case False
  with assms have "draining q = []" and "tasks (notifyQueue q) = []" and "started q = pushed q"
    by (auto simp add: singleConsumer_def)
  with False show ?thesis
    by (simp add: pushToNotifyQueue_def processQueue_def drainLoop_def singleConsumer_def)
qed

lemma singleConsumer_taskDone:
  assumes "singleConsumer q" and "i < length (draining q)"
  shows "singleConsumer (taskDone i q)"
proof -
  from assms have i: "i = 0" and one: "length (draining q) = 1"
    by (auto simp add: singleConsumer_def)
  then obtain x where x: "draining q = [x]"
    by (cases "draining q") auto
  show ?thesis
  proof (cases "tasks (notifyQueue q)")
    case Nil
    with assms i x show ?thesis
      by (simp add: taskDone_def drainLoop_def singleConsumer_def)
  next
    case (Cons t rest)
    with assms i x show ?thesis
      by (auto simp add: taskDone_def drainLoop_def singleConsumer_def)
  qed
qed

lemma reachable_singleConsumer: "reachable q \<Longrightarrow> singleConsumer q"
  by (induction rule: reachable.induct)
     (simp_all add: singleConsumer_idle singleConsumer_push singleConsumer_taskDone)

lemma taskDone_next:
  assumes "singleConsumer q" and "draining q \<noteq> []" and "tasks (notifyQueue q) = t # rest"
  shows "tasks (notifyQueue (taskDone 0 q)) = rest" and "draining (taskDone 0 q) = [t]"
    and "started (taskDone 0 q) = started q @ [t]" and "pushed (taskDone 0 q) = pushed q"
proof -
  from assms obtain x where x: "draining q = [x]"
    by (cases "draining q") (auto simp add: singleConsumer_def)
  with assms(3) show "tasks (notifyQueue (taskDone 0 q)) = rest" and "draining (taskDone 0 q) = [t]"
    and "started (taskDone 0 q) = started q @ [t]" and "pushed (taskDone 0 q) = pushed q"
    by (simp_all add: taskDone_def drainLoop_def)
qed

lemma drain_starts_all:
  "singleConsumer q \<Longrightarrow> draining q \<noteq> [] \<Longrightarrow> length (tasks (notifyQueue q)) = n \<Longrightarrow>
     started ((taskDone 0 ^^ n) q) = pushed q"
proof (induction n arbitrary: q)
  case 0
  then show ?case by (simp add: singleConsumer_def)
next
  case (Suc n)
  then obtain t rest where ts: "tasks (notifyQueue q) = t # rest"
    by (cases "tasks (notifyQueue q)") auto
  have inv: "singleConsumer (taskDone 0 q)"
    using Suc.prems(1,2) by (intro singleConsumer_taskDone) auto
  have "started ((taskDone 0 ^^ n) (taskDone 0 q)) = pushed (taskDone 0 q)"
    using Suc.prems(3) ts taskDone_next [OF Suc.prems(1,2) ts] by (intro Suc.IH inv) auto
  then show ?case
    using taskDone_next(4) [OF Suc.prems(1,2) ts] by (simp add: funpow_swap1)
qed

text \<open>
  C8. In every state that the queue reaches: at most one call of \<^verbatim>\<open>processQueue\<close> is in its
  drain loop, so at most one task is with \<^verbatim>\<open>processTask\<close> and at most one send is in flight; a
  push while \<^verbatim>\<open>isProcessing\<close> is set only appends the task to the queue and leaves the
  consumers as they were; a waiting task always has a consumer; the tasks handed to
  \<^verbatim>\<open>processTask\<close> so far, followed by the tasks waiting, are the tasks pushed, in the order of
  the pushes; and when a consumer is there, it has started every pushed task, in that order,
  once it has come back from \<^verbatim>\<open>processTask\<close> as many times as tasks are waiting.
\<close>

theorem one_drain_loop_in_fifo_order:
  assumes "reachable q"
  shows
    "length (draining q) \<le> 1
     \<and> (isProcessing (notifyQueue q) \<longrightarrow>
          pushToNotifyQueue task q
            = q\<lparr>notifyQueue := (notifyQueue q)\<lparr>tasks := tasks (notifyQueue q) @ [task]\<rparr>,
                pushed := pushed q @ [task]\<rparr>
          \<and> draining (pushToNotifyQueue task q) = draining q)
     \<and> (tasks (notifyQueue q) \<noteq> [] \<longrightarrow> draining q \<noteq> [])
     \<and> started q @ tasks (notifyQueue q) = pushed q
     \<and> (draining q \<noteq> [] \<longrightarrow>
          started ((taskDone 0 ^^ length (tasks (notifyQueue q))) q) = pushed q)"
proof -
  have inv: "singleConsumer q"
    using assms by (rule reachable_singleConsumer)
  have push: "isProcessing (notifyQueue q) \<longrightarrow>
          pushToNotifyQueue task q
            = q\<lparr>notifyQueue := (notifyQueue q)\<lparr>tasks := tasks (notifyQueue q) @ [task]\<rparr>,
                pushed := pushed q @ [task]\<rparr>
          \<and> draining (pushToNotifyQueue task q) = draining q"
    by (simp add: pushToNotifyQueue_while_draining)
  have later: "draining q \<noteq> [] \<longrightarrow>
          started ((taskDone 0 ^^ length (tasks (notifyQueue q))) q) = pushed q"
    using drain_starts_all [OF inv] by simp
  from inv push later show ?thesis
    unfolding singleConsumer_def by blast
qed

theorem one_drain_loop_in_fifo_order_witness:
  "reachable (pushToNotifyQueue scenarioTask idle)
   \<and> length (draining (pushToNotifyQueue scenarioTask idle)) \<le> 1
   \<and> isProcessing (notifyQueue (pushToNotifyQueue scenarioTask idle))
   \<and> draining (pushToNotifyQueue (scenarioTask\<lparr>eventId := 2\<rparr>) (pushToNotifyQueue scenarioTask idle))
       = [scenarioTask]
   \<and> tasks (notifyQueue
        (pushToNotifyQueue (scenarioTask\<lparr>eventId := 2\<rparr>) (pushToNotifyQueue scenarioTask idle)))
       = [scenarioTask\<lparr>eventId := 2\<rparr>]
   \<and> started ((taskDone 0 ^^ 1)
        (pushToNotifyQueue (scenarioTask\<lparr>eventId := 2\<rparr>) (pushToNotifyQueue scenarioTask idle)))
       = [scenarioTask, scenarioTask\<lparr>eventId := 2\<rparr>]"
proof -
  have r1: "reachable (pushToNotifyQueue scenarioTask idle)"
    by (intro reachable.intros)
  have r2: "reachable (pushToNotifyQueue (scenarioTask\<lparr>eventId := 2\<rparr>)
      (pushToNotifyQueue scenarioTask idle))"
    by (intro reachable.intros)
  show ?thesis
    using r1 one_drain_loop_in_fifo_order [OF r1, of "scenarioTask\<lparr>eventId := 2\<rparr>"]
      one_drain_loop_in_fifo_order [OF r2, of scenarioTask]
    by (simp add: pushToNotifyQueue_def processQueue_def drainLoop_def idle_def)
qed

end
